theory Spec2Isabelle
  imports Main "HOL-Library.Product_Lexorder" "HOL-Library.Word"
begin

chapter \<open>One-step sulfonamide enumeration: plate maps, destination maps and their merge\<close>

text \<open>
  The development follows the three Python tools of the repository:
  \<^item> \<^verbatim>\<open>scripts/one-step-sulfonamide-enum96.py\<close>: the enumerator and its 96-well plate
    assignment;
  \<^item> \<^verbatim>\<open>tools/opentrons_extract_destination_map.py\<close>: the static analyzer of the protocol;
  \<^item> \<^verbatim>\<open>tools/merge_authoritative_plate_map.py\<close>: the merge of both outputs.

  Python strings are modelled as \<open>string\<close> restricted to ASCII, Python integers as
  \<open>int\<close> (or \<open>nat\<close> for counters that start at 0 and only grow), the cells of an int64
  column of a data frame as 64-bit words, a raised exception as the \<open>Inl\<close> branch of a sum.
\<close>

section \<open>Python text helpers\<close>

datatype py_error = ValueError | IndexError | OracleError

text \<open>\<^verbatim>\<open>str(n)\<close> for a non-negative integer: its decimal digits, no padding.\<close>

definition digit_char :: "nat \<Rightarrow> char" where
  "digit_char d = ''0123456789'' ! d"

function str_nat :: "nat \<Rightarrow> string" where
  "str_nat n = (if n < 10 then [digit_char n] else str_nat (n div 10) @ [digit_char (n mod 10)])"
  by pat_completeness auto
termination
  by (relation "measure id") auto

declare str_nat.simps [simp del]

text \<open>
  The format specification \<^verbatim>\<open>{n:0Wd}\<close>: sign-aware zero padding to width \<open>W\<close>; a number
  with more digits is printed in full.
\<close>

definition zfill :: "nat \<Rightarrow> string \<Rightarrow> string" where
  "zfill w s = replicate (w - length s) (CHR ''0'') @ s"

definition format_0d :: "nat \<Rightarrow> int \<Rightarrow> string" where
  "format_0d w n =
     (if n < 0 then CHR ''-'' # zfill (w - 1) (str_nat (nat (- n)))
      else zfill w (str_nat (nat n)))"

text \<open>\<^verbatim>\<open>xs.index(x)\<close>: the first position of \<open>x\<close>, or a raised \<^verbatim>\<open>ValueError\<close> (\<open>None\<close>).\<close>

fun index_in :: "'a \<Rightarrow> 'a list \<Rightarrow> nat option" where
  "index_in x [] = None"
| "index_in x (y # ys) =
     (if x = y then Some 0 else (case index_in x ys of None \<Rightarrow> None | Some k \<Rightarrow> Some (Suc k)))"

section \<open>Plate assignment of the enumerator\<close>

text \<open>\<^verbatim>\<open>row_labels_96\<close>: \<^verbatim>\<open>list("ABCDEFGH")\<close>, eight one-letter strings.\<close>

definition row_labels_96 :: "string list" where
  "row_labels_96 = map (\<lambda>c. [c]) ''ABCDEFGH''"

record plate_rec =
  Plate :: nat
  Row :: string
  Col :: nat
  Well :: string

text \<open>
  The loop of \<^verbatim>\<open>plate_assign_96\<close> over \<^verbatim>\<open>range(n)\<close>, with the running plate number as
  state. \<open>rows ! r\<close> is always in range: \<open>r\<close> is a remainder modulo \<open>n_rows = len(rows)\<close>.
\<close>

fun plate_loop ::
  "string list \<Rightarrow> nat \<Rightarrow> nat \<Rightarrow> nat list \<Rightarrow> nat \<Rightarrow> plate_rec list \<Rightarrow> plate_rec list" where
  "plate_loop rows n_rows n_cols [] plate recs = recs"
| "plate_loop rows n_rows n_cols (i # is) plate recs =
     (let idx = i mod (n_rows * n_cols);
          col = (idx div n_rows) + 1;
          r = idx mod n_rows;
          row = rows ! r;
          well = row @ str_nat col;
          recs' = recs @ [\<lparr>Plate = plate, Row = row, Col = col, Well = well\<rparr>];
          plate' = (if (i + 1) mod (n_rows * n_cols) = 0 then plate + 1 else plate)
      in plate_loop rows n_rows n_cols is plate' recs')"

text \<open>\<^verbatim>\<open>plate_assign_96(n)\<close>: the geometry is fixed in the body, 8 rows and 12 columns.\<close>

definition plate_assign_96 :: "int \<Rightarrow> plate_rec list" where
  "plate_assign_96 n =
     (let rows = row_labels_96; n_rows = length rows; n_cols = 12
      in plate_loop rows n_rows n_cols [0..<nat n] 1 [])"

subsection \<open>The specification's coordinate arithmetic\<close>

text \<open>
  Following the words of the specification (component WellIndexer), for comparison with
  \<open>plate_assign_96\<close>: the triple (plate, row index, column) of an index under a geometry of
  \<open>rows\<close> by \<open>cols\<close> wells.
\<close>

definition coordinateOf_spec :: "nat \<Rightarrow> nat \<Rightarrow> nat \<Rightarrow> nat \<times> nat \<times> nat" where
  "coordinateOf_spec index rows cols =
     (let capacity = rows * cols
      in (index div capacity + 1, (index mod capacity) mod rows, (index mod capacity) div rows + 1))"

text \<open>
  Modelled from the spec: the inverse operation \<^verbatim>\<open>indexOf(coordinate)\<close> of the WellIndexer.
  The repository defines no such function (no definition, caller or test of an inverse of
  \<open>plate_assign_96\<close>); this is the inverse of the specification's arithmetic, reading the row
  letter back through the row labels.
\<close>

definition indexOf :: "nat \<Rightarrow> nat \<Rightarrow> plate_rec \<Rightarrow> nat option" where
  "indexOf rows cols c =
     (case index_in (Row c) row_labels_96 of
        None \<Rightarrow> None
      | Some r \<Rightarrow>
          if Plate c < 1 \<or> Col c < 1 then None
          else Some ((Plate c - 1) * (rows * cols) + (Col c - 1) * rows + r))"

section \<open>The reaction oracle (RDKit) as the enumerator uses it\<close>

text \<open>
  RDKit is outside the program. Its calls are the fields of a record, so that every theorem
  holds for whatever the library does. \<open>None\<close> as the result of a call that can raise
  means it raised; \<open>MolFromSmiles\<close> returns Python's \<^verbatim>\<open>None\<close> for text it cannot parse.
  A molecule argument is \<open>'m option\<close> where the program may pass \<^verbatim>\<open>None\<close>.
  \<^item> \<open>RunReactants\<close> is \<^verbatim>\<open>RXN_SULFONAMIDE.RunReactants((s_mol, a_mol))\<close>;
  \<^item> \<open>SanitizeMol\<close> works in place: its result is the molecule after the call;
  \<^item> \<open>SanitizeMol_catchErrors\<close> is the call with \<^verbatim>\<open>catchErrors=True\<close> inside
    \<^verbatim>\<open>try ... except Exception: pass\<close>: whatever happens, the program goes on with the
    molecule as the call left it.
\<close>

record 'm rdkit =
  MolFromSmiles :: "string \<Rightarrow> 'm option"
  RunReactants :: "'m option \<Rightarrow> 'm option \<Rightarrow> 'm list list option"
  SanitizeMol :: "'m \<Rightarrow> 'm option"
  SanitizeMol_catchErrors :: "'m \<Rightarrow> 'm"
  MolToSmiles :: "'m \<Rightarrow> string option"
  CombineMols :: "'m option \<Rightarrow> 'm option \<Rightarrow> 'm option"

text \<open>
  \<^verbatim>\<open>first_sanitized_product_smiles\<close>: the two nested loops over the product sets; an
  exception of \<^verbatim>\<open>SanitizeMol\<close> or \<^verbatim>\<open>MolToSmiles\<close> is caught and the loop continues.
\<close>

fun first_in_pset :: "'m rdkit \<Rightarrow> 'm list \<Rightarrow> string option" where
  "first_in_pset rd [] = None"
| "first_in_pset rd (p # ps) =
     (case SanitizeMol rd p of
        None \<Rightarrow> first_in_pset rd ps
      | Some p' \<Rightarrow>
          (case MolToSmiles rd p' of
             None \<Rightarrow> first_in_pset rd ps
           | Some smi \<Rightarrow> Some smi))"

fun first_in_out_sets :: "'m rdkit \<Rightarrow> 'm list list \<Rightarrow> string option" where
  "first_in_out_sets rd [] = None"
| "first_in_out_sets rd (pset # rest) =
     (case first_in_pset rd pset of
        Some smi \<Rightarrow> Some smi
      | None \<Rightarrow> first_in_out_sets rd rest)"

definition first_sanitized_product_smiles ::
  "'m rdkit \<Rightarrow> 'm option \<Rightarrow> 'm option \<Rightarrow> string option" where
  "first_sanitized_product_smiles rd s_mol a_mol =
     (case RunReactants rd s_mol a_mol of
        None \<Rightarrow> None
      | Some out_sets \<Rightarrow> first_in_out_sets rd out_sets)"

text \<open>
  \<^verbatim>\<open>best_effort_product\<close>. \<^verbatim>\<open>if smi:\<close> is false for \<^verbatim>\<open>None\<close> and for the empty
  string. In the fallback, \<^verbatim>\<open>CombineMols\<close> and the last \<^verbatim>\<open>MolToSmiles\<close> stand outside
  any \<^verbatim>\<open>try\<close>: if they raise, the function raises.
\<close>

definition fallback_product :: "'m rdkit \<Rightarrow> 'm option \<Rightarrow> 'm option \<Rightarrow> py_error + (string \<times> string)" where
  "fallback_product rd s_mol a_mol =
     (case CombineMols rd s_mol a_mol of
        None \<Rightarrow> Inl OracleError
      | Some combo \<Rightarrow>
          (case MolToSmiles rd (SanitizeMol_catchErrors rd combo) of
             None \<Rightarrow> Inl OracleError
           | Some t \<Rightarrow> Inr (t, ''FALLBACK_COMBINEMOLS'')))"

definition best_effort_product ::
  "'m rdkit \<Rightarrow> 'm option \<Rightarrow> 'm option \<Rightarrow> py_error + (string \<times> string)" where
  "best_effort_product rd s_mol a_mol =
     (case first_sanitized_product_smiles rd s_mol a_mol of
        Some (c # cs) \<Rightarrow> Inr (c # cs, ''OK_REACTION'')
      | Some [] \<Rightarrow> fallback_product rd s_mol a_mol
      | None \<Rightarrow> fallback_product rd s_mol a_mol)"

section \<open>Reagents and the enumeration\<close>

record reagent =
  smiles :: string
  rid :: string
  name :: string

text \<open>Python's \<^verbatim>\<open>str.strip()\<close> on ASCII text: the whitespace of \<^verbatim>\<open>str.isspace\<close>.\<close>

definition is_space :: "char \<Rightarrow> bool" where
  "is_space c = (let k = (of_char c :: nat) in (9 \<le> k \<and> k \<le> 13) \<or> (28 \<le> k \<and> k \<le> 32))"

definition strip :: "string \<Rightarrow> string" where
  "strip s = rev (dropWhile is_space (rev (dropWhile is_space s)))"

text \<open>
  The identifier of \<^verbatim>\<open>load_reagents_csv\<close>:
  \<^verbatim>\<open>rid = str(row[id_col]).strip() if id_col else f"{default_prefix}{i:06d}"\<close>, where
  \<open>id_cell\<close> is \<^verbatim>\<open>str(row[id_col])\<close> when an identifier column was selected and \<open>None\<close>
  when \<^verbatim>\<open>id_col\<close> is \<^verbatim>\<open>None\<close>; \<open>i\<close> is the row's index in the data frame.
\<close>

definition reagent_rid :: "string option \<Rightarrow> string \<Rightarrow> int \<Rightarrow> string" where
  "reagent_rid id_cell default_prefix i =
     (case id_cell of Some v \<Rightarrow> strip v | None \<Rightarrow> default_prefix @ format_0d 6 i)"

text \<open>
  A data frame read from a CSV file: its column names and, per row, the text
  \<^verbatim>\<open>str(row[c])\<close> of each cell. \<^verbatim>\<open>read_csv\<close> numbers the rows 0, 1, 2, ...
\<close>

record data_frame =
  columns :: "string list"
  cells :: "(string \<Rightarrow> string) list"

definition pick_smiles_col :: "data_frame \<Rightarrow> py_error + string" where
  "pick_smiles_col df =
     (if ''SMILES'' \<in> set (columns df) then Inr ''SMILES''
      else if ''smiles'' \<in> set (columns df) then Inr ''smiles''
      else if ''Smiles'' \<in> set (columns df) then Inr ''Smiles''
      else Inl ValueError)"

definition pick_id_col :: "data_frame \<Rightarrow> string \<Rightarrow> bool \<Rightarrow> py_error + string option" where
  "pick_id_col df preferred_id_col strict_ids =
     (if preferred_id_col \<in> set (columns df) then Inr (Some preferred_id_col)
      else if ''id'' \<in> set (columns df) \<and> \<not> strict_ids then Inr (Some ''id'')
      else if strict_ids then Inl ValueError
      else Inr None)"

definition pick_name_col :: "data_frame \<Rightarrow> string option" where
  "pick_name_col df =
     (if ''name'' \<in> set (columns df) then Some ''name''
      else if ''Name'' \<in> set (columns df) then Some ''Name'' else None)"

fun load_rows ::
  "'m rdkit \<Rightarrow> string \<Rightarrow> string option \<Rightarrow> string option \<Rightarrow> string \<Rightarrow>
   (int \<times> (string \<Rightarrow> string)) list \<Rightarrow> py_error + reagent list" where
  "load_rows rd smi_col id_col name_col default_prefix [] = Inr []"
| "load_rows rd smi_col id_col name_col default_prefix ((i, row) # rest) =
     (let smi_raw = strip (row smi_col) in
      case MolFromSmiles rd smi_raw of
        None \<Rightarrow> load_rows rd smi_col id_col name_col default_prefix rest
      | Some mol \<Rightarrow>
          (case MolToSmiles rd mol of
             None \<Rightarrow> Inl OracleError
           | Some smi \<Rightarrow>
               (let rid = reagent_rid (map_option row id_col) default_prefix i;
                    nm = (case name_col of Some c \<Rightarrow> strip (row c) | None \<Rightarrow> rid)
                in case load_rows rd smi_col id_col name_col default_prefix rest of
                     Inl e \<Rightarrow> Inl e
                   | Inr reagents \<Rightarrow> Inr (\<lparr>smiles = smi, rid = rid, name = nm\<rparr> # reagents))))"

definition load_reagents_csv ::
  "'m rdkit \<Rightarrow> data_frame \<Rightarrow> string \<Rightarrow> string \<Rightarrow> bool \<Rightarrow> py_error + reagent list" where
  "load_reagents_csv rd df preferred_id_col default_prefix strict_ids =
     (case pick_smiles_col df of
        Inl e \<Rightarrow> Inl e
      | Inr smi_col \<Rightarrow>
          (case pick_id_col df preferred_id_col strict_ids of
             Inl e \<Rightarrow> Inl e
           | Inr id_col \<Rightarrow>
               load_rows rd smi_col id_col (pick_name_col df) default_prefix
                 (zip (map int [0..<length (cells df)]) (cells df))))"

text \<open>
  \<^verbatim>\<open>enumerate_one_step\<close>: the outer loop over the sulfonyl chlorides, the inner loop over
  the amines, the running \<^verbatim>\<open>pid\<close> as state. The generator is read as the list of the
  tuples it yields when it is run to its end, or the exception that ends it. The two
  substructure checks only guard a \<^verbatim>\<open>pass\<close> and are left out.
\<close>

type_synonym product = "nat \<times> reagent \<times> reagent \<times> string \<times> string"

fun enumerate_amines ::
  "'m rdkit \<Rightarrow> reagent \<Rightarrow> 'm option \<Rightarrow> reagent list \<Rightarrow> nat \<Rightarrow> py_error + (product list \<times> nat)" where
  "enumerate_amines rd s s_mol [] pid = Inr ([], pid)"
| "enumerate_amines rd s s_mol (a # rest) pid =
     (let a_mol = MolFromSmiles rd (smiles a) in
      case best_effort_product rd s_mol a_mol of
        Inl e \<Rightarrow> Inl e
      | Inr (prod_smi, status) \<Rightarrow>
          (case enumerate_amines rd s s_mol rest (pid + 1) of
             Inl e \<Rightarrow> Inl e
           | Inr (ps, pid') \<Rightarrow> Inr ((pid, s, a, prod_smi, status) # ps, pid')))"

fun enumerate_sulfonyls ::
  "'m rdkit \<Rightarrow> reagent list \<Rightarrow> reagent list \<Rightarrow> nat \<Rightarrow> py_error + product list" where
  "enumerate_sulfonyls rd [] amines pid = Inr []"
| "enumerate_sulfonyls rd (s # rest) amines pid =
     (let s_mol = MolFromSmiles rd (smiles s) in
      case enumerate_amines rd s s_mol amines pid of
        Inl e \<Rightarrow> Inl e
      | Inr (ps, pid') \<Rightarrow>
          (case enumerate_sulfonyls rd rest amines pid' of
             Inl e \<Rightarrow> Inl e
           | Inr qs \<Rightarrow> Inr (ps @ qs)))"

definition enumerate_one_step ::
  "'m rdkit \<Rightarrow> reagent list \<Rightarrow> reagent list \<Rightarrow> py_error + product list" where
  "enumerate_one_step rd sulfonyls amines = enumerate_sulfonyls rd sulfonyls amines 0"

text \<open>
  The oracle's contract for the fallback, as the specification gives it
  (\<^verbatim>\<open>combineDisconnected(a, b)\<close> always succeeds): combining two molecules does not raise,
  and neither does writing the combination as SMILES.
\<close>

definition fallback_total :: "'m rdkit \<Rightarrow> bool" where
  "fallback_total rd =
     (\<forall>x y. \<exists>combo t. CombineMols rd (Some x) (Some y) = Some combo \<and>
                       MolToSmiles rd (SanitizeMol_catchErrors rd combo) = Some t)"

text \<open>
  A small oracle to run the definitions on: a molecule is its SMILES text, the text
  \<^verbatim>\<open>bad\<close> does not parse, the reaction gives one product (the two texts joined) when the
  amine is \<^verbatim>\<open>N\<close> and no product set otherwise, sanitizing fails on nothing, and every
  call with \<^verbatim>\<open>None\<close> for a molecule raises.
\<close>

definition demo_rdkit :: "string rdkit" where
  "demo_rdkit =
     \<lparr>MolFromSmiles = (\<lambda>s. if s = ''bad'' then None else Some s),
      RunReactants = (\<lambda>a b. case (a, b) of
                         (Some x, Some y) \<Rightarrow> if y = ''N'' then Some [[x @ y]] else Some []
                       | _ \<Rightarrow> None),
      SanitizeMol = Some,
      SanitizeMol_catchErrors = (\<lambda>m. m),
      MolToSmiles = Some,
      CombineMols = (\<lambda>a b. case (a, b) of
                        (Some x, Some y) \<Rightarrow> Some (x @ ''.'' @ y)
                      | _ \<Rightarrow> None)\<rparr>"

section \<open>The static analyzer of the protocol\<close>

text \<open>
  The model starts from the statements that \<^verbatim>\<open>parse_protocol\<close> recognises while walking
  the syntax tree of \<^verbatim>\<open>run\<close>; the tree walk itself is not modelled:
  \<^item> \<open>liquids\<close>: per assignment \<^verbatim>\<open>var = ...define_liquid(...)\<close>, in source order, the
    variable and the literal \<^verbatim>\<open>name=\<close> keyword (\<open>None\<close> when it is absent or no string);
  \<^item> \<open>loads\<close>: per recognised \<^verbatim>\<open>source_plate['W'].load_liquid(liquid=var, ...)\<close>, in the
    order of the walk, the well and the variable (the volume only feeds the source layout,
    which is left out);
  \<^item> \<open>transfers\<close>: per recognised \<^verbatim>\<open>transfer\<close> call, in source order, the source well and
    the destination wells.
\<close>

subsection \<open>The two display-name patterns\<close>

definition is_digit :: "char \<Rightarrow> bool" where
  "is_digit c = (let k = (of_char c :: nat) in 48 \<le> k \<and> k \<le> 57)"

text \<open>\<^verbatim>\<open>str.upper()\<close> on one ASCII character.\<close>

definition upper_char :: "char \<Rightarrow> char" where
  "upper_char c =
     (case index_in c ''abcdefghijklmnopqrstuvwxyz'' of
        Some k \<Rightarrow> ''ABCDEFGHIJKLMNOPQRSTUVWXYZ'' ! k
      | None \<Rightarrow> c)"

definition digit_val :: "char \<Rightarrow> nat" where
  "digit_val c = of_char c - 48"

text \<open>The value of a string of decimal digits, as \<^verbatim>\<open>int\<close> reads it.\<close>

definition nat_of_digits :: "string \<Rightarrow> nat" where
  "nat_of_digits ds = foldl (\<lambda>acc c. 10 * acc + digit_val c) 0 ds"

text \<open>A literal at the start of the text, letters compared without case; what follows it.\<close>

fun match_literal_ci :: "string \<Rightarrow> string \<Rightarrow> string option" where
  "match_literal_ci [] s = Some s"
| "match_literal_ci (l # ls) [] = None"
| "match_literal_ci (l # ls) (c # cs) =
     (if upper_char l = upper_char c then match_literal_ci ls cs else None)"

text \<open>
  \<^verbatim>\<open>re.compile(r"^<literal>\s+(\d+)\s*$", re.IGNORECASE).match(name)\<close>: the digits of
  group 1, or \<open>None\<close> when the text does not match. Whitespace and digits are disjoint
  classes, so the greedy match is the only one.
\<close>

definition match_name_number :: "string \<Rightarrow> string \<Rightarrow> string option" where
  "match_name_number literal nm =
     (case match_literal_ci literal nm of
        None \<Rightarrow> None
      | Some r1 \<Rightarrow>
          (let ws = takeWhile is_space r1;
               r2 = dropWhile is_space r1;
               ds = takeWhile is_digit r2;
               r3 = dropWhile is_digit r2
           in if ws \<noteq> [] \<and> ds \<noteq> [] \<and> list_all is_space r3 then Some ds else None))"

definition RE_AMINE :: "string \<Rightarrow> string option" where
  "RE_AMINE nm = match_name_number ''Amine'' nm"

definition RE_SULF :: "string \<Rightarrow> string option" where
  "RE_SULF nm = match_name_number ''SulfonylCl'' nm"

subsection \<open>Bindings, loads and the fold into the destination map\<close>

record rinfo =
  r_class :: string
  r_num :: int
  r_name :: string

text \<open>
  Step 1 for one \<^verbatim>\<open>define_liquid\<close> assignment: \<^verbatim>\<open>if not name: continue\<close>, then the
  amine pattern, then the sulfonyl pattern; a name that matches neither binds nothing.
\<close>

definition bind_liquid ::
  "(string \<rightharpoonup> rinfo) \<Rightarrow> string \<Rightarrow> string option \<Rightarrow> (string \<rightharpoonup> rinfo)" where
  "bind_liquid reagent_vars var nm_opt =
     (case nm_opt of
        None \<Rightarrow> reagent_vars
      | Some nm \<Rightarrow>
          if nm = [] then reagent_vars
          else (case RE_AMINE nm of
                  Some g \<Rightarrow>
                    reagent_vars(var \<mapsto>
                      \<lparr>r_class = ''amine'', r_num = int (nat_of_digits g), r_name = nm\<rparr>)
                | None \<Rightarrow>
                    (case RE_SULF nm of
                       Some g \<Rightarrow>
                         reagent_vars(var \<mapsto>
                           \<lparr>r_class = ''sulfonyl'', r_num = int (nat_of_digits g), r_name = nm\<rparr>)
                     | None \<Rightarrow> reagent_vars)))"

definition reagent_vars_of :: "(string \<times> string option) list \<Rightarrow> (string \<rightharpoonup> rinfo)" where
  "reagent_vars_of liquids = foldl (\<lambda>m (var, nm). bind_liquid m var nm) Map.empty liquids"

text \<open>Step 2: \<^verbatim>\<open>source_well_map[well] = ...\<close>, a later load of a well replaces an earlier one.\<close>

definition source_well_map_of :: "(string \<times> string) list \<Rightarrow> (string \<rightharpoonup> string)" where
  "source_well_map_of loads = foldl (\<lambda>m (well, liquid_var). m(well \<mapsto> liquid_var)) Map.empty loads"

record transfer =
  src_well :: string
  dest_wells :: "string list"

record dest_entry =
  d_well :: string
  sulfonyl_num :: "int option"
  amine_num :: "int option"
  sulfonyl_source_well :: string
  amine_source_well :: string

text \<open>
  The destination map is a Python dictionary, which keeps the order of insertion: an
  association list with one pair per key. \<open>dict_set\<close> replaces the value of a key in place
  and appends a new key at the end. The blank cell \<^verbatim>\<open>""\<close> of a number is \<open>None\<close>.
\<close>

fun dict_set :: "'k \<Rightarrow> 'v \<Rightarrow> ('k \<times> 'v) list \<Rightarrow> ('k \<times> 'v) list" where
  "dict_set k v [] = [(k, v)]"
| "dict_set k v ((k', v') # rest) =
     (if k' = k then (k, v) # rest else (k', v') # dict_set k v rest)"

definition default_entry :: "string \<Rightarrow> dest_entry" where
  "default_entry dw =
     \<lparr>d_well = dw, sulfonyl_num = None, amine_num = None,
      sulfonyl_source_well = '''', amine_source_well = ''''\<rparr>"

text \<open>The two assignments of the loop body, by the class of the reagent.\<close>

definition set_fields :: "rinfo \<Rightarrow> string \<Rightarrow> dest_entry \<Rightarrow> dest_entry" where
  "set_fields ri src rec =
     (if r_class ri = ''sulfonyl''
      then rec\<lparr>sulfonyl_num := Some (r_num ri), sulfonyl_source_well := src\<rparr>
      else if r_class ri = ''amine''
      then rec\<lparr>amine_num := Some (r_num ri), amine_source_well := src\<rparr>
      else rec)"

text \<open>
  One destination well of a transfer: \<^verbatim>\<open>rec = dest_map.setdefault(dw, {...})\<close> followed by
  the assignments to \<^verbatim>\<open>rec\<close>.
\<close>

definition write_well ::
  "rinfo \<Rightarrow> string \<Rightarrow> (string \<times> dest_entry) list \<Rightarrow> string \<Rightarrow> (string \<times> dest_entry) list" where
  "write_well ri src dest_map dw =
     (let rec = (case map_of dest_map dw of Some r \<Rightarrow> r | None \<Rightarrow> default_entry dw)
      in dict_set dw (set_fields ri src rec) dest_map)"

text \<open>
  One transfer: \<^verbatim>\<open>if not src_info: continue\<close>, \<^verbatim>\<open>if not rinfo: continue\<close>, then the loop
  over its destination wells.
\<close>

definition apply_transfer ::
  "(string \<rightharpoonup> string) \<Rightarrow> (string \<rightharpoonup> rinfo) \<Rightarrow> (string \<times> dest_entry) list \<Rightarrow> transfer \<Rightarrow>
   (string \<times> dest_entry) list" where
  "apply_transfer source_well_map reagent_vars dest_map t =
     (case source_well_map (src_well t) of
        None \<Rightarrow> dest_map
      | Some rv \<Rightarrow>
          (case reagent_vars rv of
             None \<Rightarrow> dest_map
           | Some ri \<Rightarrow> foldl (write_well ri (src_well t)) dest_map (dest_wells t)))"

definition build_dest_map ::
  "(string \<rightharpoonup> string) \<Rightarrow> (string \<rightharpoonup> rinfo) \<Rightarrow> transfer list \<Rightarrow> (string \<times> dest_entry) list" where
  "build_dest_map source_well_map reagent_vars ts =
     foldl (apply_transfer source_well_map reagent_vars) [] ts"

subsection \<open>Sorting the destination rows\<close>

text \<open>
  \<^verbatim>\<open>int(text)\<close> in base 10 on ASCII text. The whitespace it skips around the number is that
  of C's \<^verbatim>\<open>isspace\<close>: the characters 0x09 to 0x0D and the space. The separators 0x1C to
  0x1F, which \<^verbatim>\<open>str.strip\<close> and the pattern \<^verbatim>\<open>\s\<close> take for whitespace, are not skipped:
  \<^verbatim>\<open>int("\x1f5")\<close> raises \<^verbatim>\<open>ValueError\<close>.
\<close>

definition is_int_space :: "char \<Rightarrow> bool" where
  "is_int_space c = (let k = (of_char c :: nat) in (9 \<le> k \<and> k \<le> 13) \<or> k = 32)"

definition int_strip :: "string \<Rightarrow> string" where
  "int_strip s = rev (dropWhile is_int_space (rev (dropWhile is_int_space s)))"

text \<open>
  Between the whitespace one sign is allowed, then digits, where single underscores may
  stand between digits. The interpreter refuses a number of more than 4300 digits
  (\<^verbatim>\<open>sys.get_int_max_str_digits()\<close>, its default; leading zeros count, underscores do not).
  \<open>None\<close> is the raised \<^verbatim>\<open>ValueError\<close>.
\<close>

fun digits_underscores :: "string \<Rightarrow> bool" where
  "digits_underscores [] = False"
| "digits_underscores [c] = is_digit c"
| "digits_underscores (c # d # cs) =
     (is_digit c \<and> (if d = CHR ''_'' then digits_underscores cs else digits_underscores (d # cs)))"

definition max_str_digits :: nat where
  "max_str_digits = 4300"

definition py_int :: "string \<Rightarrow> int option" where
  "py_int s =
     (let t = int_strip s;
          neg = (t \<noteq> [] \<and> hd t = CHR ''-'');
          body = (if t \<noteq> [] \<and> (hd t = CHR ''-'' \<or> hd t = CHR ''+'') then tl t else t)
      in if digits_underscores body \<and> length (filter is_digit body) \<le> max_str_digits
         then (let v = int (nat_of_digits (filter (\<lambda>c. c \<noteq> CHR ''_'') body))
               in Some (if neg then - v else v))
         else None)"

text \<open>
  \<^verbatim>\<open>_well_sort_key\<close>: \<^verbatim>\<open>w[0]\<close> raises on the empty string, \<^verbatim>\<open>int(w[1:])\<close> and
  \<^verbatim>\<open>"ABCDEFGH".index(row)\<close> raise on what they do not accept.
\<close>

definition well_sort_key :: "string \<Rightarrow> py_error + (int \<times> nat)" where
  "well_sort_key w =
     (case w of
        [] \<Rightarrow> Inl IndexError
      | c # rest \<Rightarrow>
          (let row = upper_char c in
           case py_int rest of
             None \<Rightarrow> Inl ValueError
           | Some col \<Rightarrow>
               (case index_in row ''ABCDEFGH'' of
                  None \<Rightarrow> Inl ValueError
                | Some row_order \<Rightarrow> Inr (col, row_order))))"

text \<open>
  \<^verbatim>\<open>sorted(dest_map.keys(), key=_well_sort_key)\<close>: the key of every well is computed
  first, in the order of the dictionary, and the first exception ends the call; the sort is
  stable.
\<close>

fun sort_keys :: "string list \<Rightarrow> py_error + ((int \<times> nat) \<times> string) list" where
  "sort_keys [] = Inr []"
| "sort_keys (w # ws) =
     (case well_sort_key w of
        Inl e \<Rightarrow> Inl e
      | Inr k \<Rightarrow> (case sort_keys ws of Inl e \<Rightarrow> Inl e | Inr ks \<Rightarrow> Inr ((k, w) # ks)))"

definition sorted_wells :: "string list \<Rightarrow> py_error + string list" where
  "sorted_wells ws =
     (case sort_keys ws of Inl e \<Rightarrow> Inl e | Inr ks \<Rightarrow> Inr (map snd (sort_key fst ks)))"

record recognized =
  liquids :: "(string \<times> string option) list"
  loads :: "(string \<times> string) list"
  transfers :: "transfer list"

text \<open>
  \<^verbatim>\<open>parse_protocol\<close>, its destination rows: \<open>None\<close> is a script without a top-level
  \<^verbatim>\<open>run\<close> function. \<^verbatim>\<open>dest_map[w]\<close> is always present for a key \<open>w\<close> of the map.
\<close>

definition dest_rows_of :: "(string \<times> dest_entry) list \<Rightarrow> py_error + dest_entry list" where
  "dest_rows_of dest_map =
     (case sorted_wells (map fst dest_map) of
        Inl e \<Rightarrow> Inl e
      | Inr ws \<Rightarrow> Inr (map (\<lambda>w. the (map_of dest_map w)) ws))"

definition parse_protocol :: "recognized option \<Rightarrow> py_error + dest_entry list" where
  "parse_protocol run_node =
     (case run_node of
        None \<Rightarrow> Inl ValueError
      | Some r \<Rightarrow>
          dest_rows_of
            (build_dest_map (source_well_map_of (loads r)) (reagent_vars_of (liquids r))
               (transfers r)))"

subsection \<open>Notions for stating properties of the fold\<close>

text \<open>
  The reagent a transfer resolves to: its source well through the loads to a variable, the
  variable through the bindings to a reagent. \<open>None\<close> is a transfer that the fold skips.
\<close>

definition resolved_reagent ::
  "(string \<rightharpoonup> string) \<Rightarrow> (string \<rightharpoonup> rinfo) \<Rightarrow> transfer \<Rightarrow> rinfo option" where
  "resolved_reagent source_well_map reagent_vars t =
     (case source_well_map (src_well t) of None \<Rightarrow> None | Some rv \<Rightarrow> reagent_vars rv)"

text \<open>The entry of a well in the map, or the blank entry \<^verbatim>\<open>setdefault\<close> would insert.\<close>

definition entry_or_default :: "(string \<times> dest_entry) list \<Rightarrow> string \<Rightarrow> dest_entry" where
  "entry_or_default dest_map w =
     (case map_of dest_map w of Some r \<Rightarrow> r | None \<Rightarrow> default_entry w)"



text \<open>
  A small recognised script to run the definitions on: one amine, two sulfonyl chlorides and
  a liquid whose display name matches neither pattern, each loaded into one source well.
\<close>

definition demo_run :: recognized where
  "demo_run =
     \<lparr>liquids = [(''amine_1'', Some ''Amine 1''), (''sulfonyl_1'', Some ''SulfonylCl 1''),
                 (''sulfonyl_2'', Some ''SulfonylCl 2''), (''solvent'', Some ''Solvent 1'')],
      loads = [(''A1'', ''amine_1''), (''A2'', ''sulfonyl_1''), (''B2'', ''sulfonyl_2''),
               (''C1'', ''solvent'')],
      transfers = []\<rparr>"

section \<open>The merge into the authoritative plate map\<close>

text \<open>\<^verbatim>\<open>s_id\<close> and \<^verbatim>\<open>amine_id\<close>: \<^verbatim>\<open>f"S_{n:03d}"\<close> and \<^verbatim>\<open>f"Amine_ID_{n:03d}"\<close>.\<close>

definition s_id :: "int \<Rightarrow> string" where
  "s_id n = ''S_'' @ format_0d 3 n"

definition amine_id :: "int \<Rightarrow> string" where
  "amine_id n = ''Amine_ID_'' @ format_0d 3 n"

text \<open>
  The destination map as \<^verbatim>\<open>read_csv\<close> gives it, with the five columns the analyzer writes
  (a file without a column the program reads raises \<^verbatim>\<open>KeyError\<close>; such files are outside
  the model). A cell of a number column is a signed 64-bit integer or blank: \<^verbatim>\<open>read_csv\<close>
  reads a column of such integers as int64 and, once a cell of it is blank, as floating
  point with NaN for the blank cell, here \<open>None\<close>. A number outside the
  signed 64-bit range makes the column unsigned or text, on which \<^verbatim>\<open>astype(int)\<close> wraps
  around or raises \<^verbatim>\<open>OverflowError\<close>; the type of the cells keeps such files outside the
  model. The Python integer of a cell \<open>n\<close> is \<open>sint n\<close>.
\<close>

type_synonym int64 = "64 word"

record dest_row =
  row_Well :: string
  row_sulfonyl_num :: "int64 option"
  row_amine_num :: "int64 option"
  row_sulfonyl_source_well :: string
  row_amine_source_well :: string

text \<open>
  The product table as \<^verbatim>\<open>read_csv\<close> gives it, with the five columns that
  \<^verbatim>\<open>keep_cols_prod\<close> keeps. Each of its two key columns comes with the type \<^verbatim>\<open>read_csv\<close>
  inferred for it: a column in which every cell is a number or blank is read as numbers
  (int64 or float64), any other column as text (object), and so is every column of a table
  without rows. A key cell of a text column is its text, or \<open>None\<close> when the cell is blank
  (NaN); the cells of a column read as numbers are never compared. A blank SMILES cell is
  NaN, here \<open>None\<close>.
\<close>

datatype column_dtype = ObjectDtype | NumericDtype

record prod_row =
  ProductID :: int
  S_ID :: "string option"
  Amine_ID :: "string option"
  SMILES :: "string option"
  Status :: string

record prod_frame =
  S_ID_dtype :: column_dtype
  Amine_ID_dtype :: column_dtype
  prod_rows :: "prod_row list"

record merged_row =
  m_Well :: string
  m_sulfonyl_num :: int64
  m_amine_num :: int64
  m_sulfonyl_source_well :: string
  m_amine_source_well :: string
  m_S_ID :: string
  m_Amine_ID :: string
  m_ProductID :: "int option"
  m_SMILES :: "string option"
  m_Status :: "string option"

text \<open>
  \<^verbatim>\<open>column.astype(int)\<close> on a number column of the destination map: it raises as soon as
  one cell is NaN (\<^verbatim>\<open>IntCastingNaNError\<close>, a \<^verbatim>\<open>ValueError\<close>), and a column without NaN is
  int64 already and keeps its cells.
\<close>

fun astype_int :: "int64 option list \<Rightarrow> py_error + int64 list" where
  "astype_int [] = Inr []"
| "astype_int (None # cs) = Inl ValueError"
| "astype_int (Some n # cs) =
     (case astype_int cs of Inl e \<Rightarrow> Inl e | Inr ns \<Rightarrow> Inr (n # ns))"

text \<open>
  The rows of the left join for one destination row: it is joined with every product row of
  the same key pair, in the order of the product table, or once with empty product fields
  when there is none. \<open>n\<close> and \<open>m\<close> are the row's numbers after \<^verbatim>\<open>astype(int)\<close>; its keys
  are \<^verbatim>\<open>s_id(n)\<close> and \<^verbatim>\<open>amine_id(m)\<close>, which \<^verbatim>\<open>main\<close> has stored in the two new columns.
\<close>

definition unmatched_row :: "dest_row \<Rightarrow> int64 \<Rightarrow> int64 \<Rightarrow> merged_row" where
  "unmatched_row d n m =
     \<lparr>m_Well = row_Well d, m_sulfonyl_num = n, m_amine_num = m,
      m_sulfonyl_source_well = row_sulfonyl_source_well d,
      m_amine_source_well = row_amine_source_well d,
      m_S_ID = s_id (sint n), m_Amine_ID = amine_id (sint m),
      m_ProductID = None, m_SMILES = None, m_Status = None\<rparr>"

definition matched_row :: "dest_row \<Rightarrow> int64 \<Rightarrow> int64 \<Rightarrow> prod_row \<Rightarrow> merged_row" where
  "matched_row d n m p =
     (unmatched_row d n m)
       \<lparr>m_ProductID := Some (ProductID p), m_SMILES := SMILES p, m_Status := Some (Status p)\<rparr>"

definition join_row :: "prod_row list \<Rightarrow> dest_row \<times> int64 \<times> int64 \<Rightarrow> merged_row list" where
  "join_row rows dnm =
     (case dnm of (d, n, m) \<Rightarrow>
        (let ms = filter (\<lambda>p. S_ID p = Some (s_id (sint n)) \<and>
                               Amine_ID p = Some (amine_id (sint m))) rows
         in if ms = [] then [unmatched_row d n m] else map (matched_row d n m) ms))"

text \<open>
  \<^verbatim>\<open>df_dest.merge(df_prod[keep_cols_prod], on=["S_ID", "Amine_ID"], how="left")\<close>. The
  keys of the left frame are text. When both frames have rows, \<^verbatim>\<open>merge\<close> first compares the
  types of the key columns and raises \<^verbatim>\<open>ValueError\<close> for a text column against a column of
  numbers; when one frame has no row it skips that comparison. Otherwise the result has the
  rows of the left frame in their order, each joined as \<open>join_row\<close> says.
\<close>

definition merge_left ::
  "(dest_row \<times> int64 \<times> int64) list \<Rightarrow> prod_frame \<Rightarrow> py_error + merged_row list" where
  "merge_left rows df_prod =
     (if rows \<noteq> [] \<and> prod_rows df_prod \<noteq> [] \<and>
         (S_ID_dtype df_prod = NumericDtype \<or> Amine_ID_dtype df_prod = NumericDtype)
      then Inl ValueError
      else Inr (concat (map (join_row (prod_rows df_prod)) rows)))"

text \<open>
  \<^verbatim>\<open>main\<close> of the merge tool, from the two frames to what it writes and returns: the merged
  rows, the rows it counts as missing, the lines of the QC report and the exit status. It
  has no \<^verbatim>\<open>try\<close>: an exception of \<^verbatim>\<open>astype\<close> or \<^verbatim>\<open>merge\<close> ends it before anything is
  written.
\<close>

record merge_result =
  out_rows :: "merged_row list"
  missing_rows :: "merged_row list"
  qc_lines :: "string list"
  exit_code :: int

definition qc_report :: "merged_row list \<Rightarrow> merged_row list \<Rightarrow> string list" where
  "qc_report dfm missing =
     [''Total wells: '' @ str_nat (length dfm), ''Missing SMILES: '' @ str_nat (length missing)] @
     (if length missing \<noteq> 0
      then ''Missing rows (Well, S_ID, Amine_ID):'' #
           map (\<lambda>r. ''  '' @ m_Well r @ '', '' @ m_S_ID r @ '', '' @ m_Amine_ID r) missing
      else [])"

definition merge_main :: "dest_row list \<Rightarrow> prod_frame \<Rightarrow> py_error + merge_result" where
  "merge_main df_dest df_prod =
     (case astype_int (map row_sulfonyl_num df_dest) of
        Inl e \<Rightarrow> Inl e
      | Inr ns \<Rightarrow>
          (case astype_int (map row_amine_num df_dest) of
             Inl e \<Rightarrow> Inl e
           | Inr ms \<Rightarrow>
               (case merge_left (zip df_dest (zip ns ms)) df_prod of
                  Inl e \<Rightarrow> Inl e
                | Inr dfm \<Rightarrow>
                    (let missing = filter (\<lambda>r. m_SMILES r = None) dfm;
                         n_missing = length missing
                     in Inr \<lparr>out_rows = dfm, missing_rows = missing,
                             qc_lines = qc_report dfm missing,
                             exit_code = (if n_missing \<noteq> 0 then 1 else 0)\<rparr>))))"

subsection \<open>Notions for stating properties of the merge\<close>

text \<open>The destination rows with their two numbers, once \<^verbatim>\<open>astype(int)\<close> has succeeded.\<close>

definition numbered :: "dest_row list \<Rightarrow> (dest_row \<times> int64 \<times> int64) list" where
  "numbered df_dest =
     map (\<lambda>d. (d, the (row_sulfonyl_num d), the (row_amine_num d))) df_dest"

text \<open>The merged row of a destination row when at most one product row has its key pair.\<close>

definition join_one :: "prod_row list \<Rightarrow> dest_row \<Rightarrow> int64 \<Rightarrow> int64 \<Rightarrow> merged_row" where
  "join_one rows d n m =
     (case find (\<lambda>p. S_ID p = Some (s_id (sint n)) \<and> Amine_ID p = Some (amine_id (sint m))) rows of
        None \<Rightarrow> unmatched_row d n m
      | Some p \<Rightarrow> matched_row d n m p)"

section \<open>Facts about the plate assignment\<close>

definition coord_of :: "string list \<Rightarrow> nat \<Rightarrow> nat \<Rightarrow> nat \<Rightarrow> plate_rec" where
  "coord_of rows nr nc i =
     (let idx = i mod (nr * nc); col = idx div nr + 1; row = rows ! (idx mod nr)
      in \<lparr>Plate = i div (nr * nc) + 1, Row = row, Col = col, Well = row @ str_nat col\<rparr>)"

lemma plate_loop_upt:
  "0 < nr * nc \<Longrightarrow> p = lo div (nr * nc) + 1 \<Longrightarrow>
   plate_loop rows nr nc [lo..<lo + k] p recs = recs @ map (coord_of rows nr nc) [lo..<lo + k]"
proof (induction k arbitrary: lo p recs)
  case 0
  then show ?case by simp
next
  case (Suc k)
  have step: "[lo..<lo + Suc k] = lo # [Suc lo..<Suc lo + k]"
    by (simp add: upt_rec)
  have p': "(if (lo + 1) mod (nr * nc) = 0 then p + 1 else p) = Suc lo div (nr * nc) + 1"
    using Suc.prems by (auto simp: div_Suc mod_Suc split: if_splits)
  show ?case
    unfolding step
    apply (simp only: plate_loop.simps Let_def p')
    apply (subst Suc.IH[OF Suc.prems(1)])
     apply simp
    apply (simp add: coord_of_def Let_def Suc.prems)
    done
qed

lemma length_row_labels_96: "length row_labels_96 = 8"
  by (simp add: row_labels_96_def)

lemma plate_assign_96_map:
  "plate_assign_96 n = map (coord_of row_labels_96 8 12) [0..<nat n]"
proof -
  have "plate_loop row_labels_96 8 12 [0..<0 + nat n] 1 [] =
          [] @ map (coord_of row_labels_96 8 12) [0..<0 + nat n]"
    by (rule plate_loop_upt) simp_all
  then show ?thesis
    unfolding plate_assign_96_def Let_def length_row_labels_96 by simp
qed

lemma length_plate_assign_96: "length (plate_assign_96 n) = nat n"
  by (simp add: plate_assign_96_map)

lemma plate_assign_96_nth:
  "i < nat n \<Longrightarrow> plate_assign_96 n ! i = coord_of row_labels_96 8 12 i"
  by (simp add: plate_assign_96_map)

lemma index_in_row_labels_96:
  "r < 8 \<Longrightarrow> index_in (row_labels_96 ! r) row_labels_96 = Some r"
proof -
  assume "r < 8"
  then consider "r = 0" | "r = 1" | "r = 2" | "r = 3" | "r = 4" | "r = 5" | "r = 6" | "r = 7"
    by linarith
  then show ?thesis
    by cases (simp_all add: row_labels_96_def)
qed

lemma index_recombine_96:
  "(i div 96) * 96 + (i mod 96 div 8) * 8 + i mod 96 mod 8 = (i::nat)"
proof -
  have "(i mod 96 div 8) * 8 + i mod 96 mod 8 = i mod 96"
    by simp
  then show ?thesis
    by (metis add.assoc div_mult_mod_eq)
qed

lemma indexOf_coord_of_96: "indexOf 8 12 (coord_of row_labels_96 8 12 i) = Some i"
proof -
  have r: "i mod 96 mod 8 < 8" by simp
  show ?thesis
    using index_recombine_96 [of i]
    by (simp add: indexOf_def coord_of_def Let_def index_in_row_labels_96 [OF r])
qed

lemma coord_of_96_onto:
  assumes "1 \<le> p" "r < 8" "1 \<le> c" "c \<le> 12"
  shows "coord_of row_labels_96 8 12 ((p - 1) * 96 + (c - 1) * 8 + r) =
           \<lparr>Plate = p, Row = row_labels_96 ! r, Col = c, Well = row_labels_96 ! r @ str_nat c\<rparr>"
proof -
  define q where "q = (c - 1) * 8 + r"
  define i where "i = (p - 1) * 96 + q"
  have lt: "q < 96" using assms by (simp add: q_def)
  have m: "i mod 96 = q"
    using lt by (simp add: i_def)
  have d: "i div 96 + 1 = p"
    using lt assms(1) by (simp add: i_def)
  have qd: "q div 8 + 1 = c" and qm: "q mod 8 = r"
    using assms by (simp_all add: q_def)
  have "coord_of row_labels_96 8 12 i =
          \<lparr>Plate = p, Row = row_labels_96 ! r, Col = c, Well = row_labels_96 ! r @ str_nat c\<rparr>"
    using m d qd qm by (simp add: coord_of_def Let_def)
  then show ?thesis
    by (simp add: i_def q_def add.assoc)
qed


section \<open>Facts about the enumeration\<close>

lemma enumerate_amines_ok:
  assumes "\<And>a. a \<in> set amines \<Longrightarrow>
             \<exists>r. best_effort_product rd s_mol (MolFromSmiles rd (smiles a)) = Inr r"
  shows "\<exists>ps. enumerate_amines rd s s_mol amines pid = Inr (ps, pid + length amines) \<and>
              length ps = length amines \<and>
              (\<forall>j < length amines. \<exists>smi st.
                 best_effort_product rd s_mol (MolFromSmiles rd (smiles (amines ! j))) = Inr (smi, st) \<and>
                 ps ! j = (pid + j, s, amines ! j, smi, st))"
  using assms
proof (induction amines arbitrary: pid)
  case Nil
  then show ?case by simp
next
  case (Cons a rest)
  obtain smi st where b: "best_effort_product rd s_mol (MolFromSmiles rd (smiles a)) = Inr (smi, st)"
    using Cons.prems [of a] by auto
  have "\<And>a. a \<in> set rest \<Longrightarrow>
             \<exists>r. best_effort_product rd s_mol (MolFromSmiles rd (smiles a)) = Inr r"
    using Cons.prems by simp
  from Cons.IH [OF this, where pid = "pid + 1"]
  obtain ps where ps: "enumerate_amines rd s s_mol rest (pid + 1) = Inr (ps, pid + 1 + length rest)"
    "length ps = length rest"
    "\<forall>j < length rest. \<exists>smi st.
        best_effort_product rd s_mol (MolFromSmiles rd (smiles (rest ! j))) = Inr (smi, st) \<and>
        ps ! j = (pid + 1 + j, s, rest ! j, smi, st)"
    by blast
  have e: "enumerate_amines rd s s_mol (a # rest) pid =
             Inr ((pid, s, a, smi, st) # ps, pid + length (a # rest))"
    using b ps(1) by simp
  have n: "\<forall>j < length (a # rest). \<exists>smi' st'.
        best_effort_product rd s_mol (MolFromSmiles rd (smiles ((a # rest) ! j))) = Inr (smi', st') \<and>
        ((pid, s, a, smi, st) # ps) ! j = (pid + j, s, (a # rest) ! j, smi', st')"
  proof (intro allI impI)
    fix j assume "j < length (a # rest)"
    then show "\<exists>smi' st'.
        best_effort_product rd s_mol (MolFromSmiles rd (smiles ((a # rest) ! j))) = Inr (smi', st') \<and>
        ((pid, s, a, smi, st) # ps) ! j = (pid + j, s, (a # rest) ! j, smi', st')"
      using b ps(3) by (cases j) auto
  qed
  show ?case
    using e n ps(2) by (intro exI [of _ "(pid, s, a, smi, st) # ps"]) simp
qed

lemma enumerate_sulfonyls_ok:
  assumes "\<And>s a. s \<in> set sulfonyls \<Longrightarrow> a \<in> set amines \<Longrightarrow>
             \<exists>r. best_effort_product rd (MolFromSmiles rd (smiles s))
                   (MolFromSmiles rd (smiles a)) = Inr r"
  shows "\<exists>ps. enumerate_sulfonyls rd sulfonyls amines pid = Inr ps \<and>
              length ps = length sulfonyls * length amines \<and>
              (\<forall>i < length sulfonyls. \<forall>j < length amines. \<exists>smi st.
                 best_effort_product rd (MolFromSmiles rd (smiles (sulfonyls ! i)))
                   (MolFromSmiles rd (smiles (amines ! j))) = Inr (smi, st) \<and>
                 ps ! (i * length amines + j) =
                   (pid + (i * length amines + j), sulfonyls ! i, amines ! j, smi, st))"
  using assms
proof (induction sulfonyls arbitrary: pid)
  case Nil
  then show ?case by simp
next
  case (Cons s rest)
  let ?M = "length amines"
  let ?sm = "MolFromSmiles rd (smiles s)"
  have "\<And>a. a \<in> set amines \<Longrightarrow>
          \<exists>r. best_effort_product rd ?sm (MolFromSmiles rd (smiles a)) = Inr r"
    using Cons.prems by simp
  from enumerate_amines_ok [OF this, where s = s and pid = pid]
  obtain row where row: "enumerate_amines rd s ?sm amines pid = Inr (row, pid + ?M)"
    "length row = ?M"
    "\<forall>j < ?M. \<exists>smi st.
        best_effort_product rd ?sm (MolFromSmiles rd (smiles (amines ! j))) = Inr (smi, st) \<and>
        row ! j = (pid + j, s, amines ! j, smi, st)"
    by blast
  have "\<And>s a. s \<in> set rest \<Longrightarrow> a \<in> set amines \<Longrightarrow>
             \<exists>r. best_effort_product rd (MolFromSmiles rd (smiles s))
                   (MolFromSmiles rd (smiles a)) = Inr r"
    using Cons.prems by simp
  from Cons.IH [OF this, where pid = "pid + ?M"]
  obtain qs where qs: "enumerate_sulfonyls rd rest amines (pid + ?M) = Inr qs"
    "length qs = length rest * ?M"
    "\<forall>i < length rest. \<forall>j < ?M. \<exists>smi st.
        best_effort_product rd (MolFromSmiles rd (smiles (rest ! i)))
          (MolFromSmiles rd (smiles (amines ! j))) = Inr (smi, st) \<and>
        qs ! (i * ?M + j) = (pid + ?M + (i * ?M + j), rest ! i, amines ! j, smi, st)"
    by blast
  have e: "enumerate_sulfonyls rd (s # rest) amines pid = Inr (row @ qs)"
    using row(1) qs(1) by simp
  have l: "length (row @ qs) = length (s # rest) * ?M"
    using row(2) qs(2) by simp
  have n: "\<forall>i < length (s # rest). \<forall>j < ?M. \<exists>smi st.
        best_effort_product rd (MolFromSmiles rd (smiles ((s # rest) ! i)))
          (MolFromSmiles rd (smiles (amines ! j))) = Inr (smi, st) \<and>
        (row @ qs) ! (i * ?M + j) =
          (pid + (i * ?M + j), (s # rest) ! i, amines ! j, smi, st)"
  proof (intro allI impI)
    fix i j
    assume i: "i < length (s # rest)" and j: "j < ?M"
    show "\<exists>smi st.
        best_effort_product rd (MolFromSmiles rd (smiles ((s # rest) ! i)))
          (MolFromSmiles rd (smiles (amines ! j))) = Inr (smi, st) \<and>
        (row @ qs) ! (i * ?M + j) =
          (pid + (i * ?M + j), (s # rest) ! i, amines ! j, smi, st)"
    proof (cases i)
      case 0
      then show ?thesis
        using row(2) row(3) j by (simp add: nth_append)
    next
      case (Suc i')
      then have i': "i' < length rest" using i by simp
      have "(row @ qs) ! (i * ?M + j) = qs ! (i' * ?M + j)"
        using Suc row(2) by (simp add: nth_append)
      then show ?thesis
        using qs(3) i' j Suc by (simp add: add.assoc add.left_commute)
    qed
  qed
  show ?case
    using e l n by blast
qed

lemma map_fst_upt:
  assumes "length ps = n * m"
    and "\<forall>i < n. \<forall>j < m. fst (ps ! (i * m + j)) = i * m + j"
  shows "map fst ps = [0..<n * m]"
proof (rule nth_equalityI)
  show "length (map fst ps) = length [0..<n * m]"
    using assms(1) by simp
next
  fix k assume "k < length (map fst ps)"
  then have k: "k < n * m" using assms(1) by simp
  then have m: "0 < m" by (cases m) simp_all
  have "k div m < n"
    using k m by (simp add: less_mult_imp_div_less)
  moreover have "k mod m < m" using m by simp
  ultimately have "fst (ps ! (k div m * m + k mod m)) = k div m * m + k mod m"
    using assms(2) by blast
  then show "map fst ps ! k = [0..<n * m] ! k"
    using k assms(1) by simp
qed


section \<open>Facts about the destination map\<close>

lemma map_of_dict_set: "map_of (dict_set k v xs) = (map_of xs)(k \<mapsto> v)"
  by (induction xs) auto

lemma map_fst_dict_set_list:
  "map fst (dict_set k v xs) = (if k \<in> set (map fst xs) then map fst xs else map fst xs @ [k])"
proof (induction xs)
  case Nil
  then show ?case by simp
next
  case (Cons p xs)
  obtain k' v' where p: "p = (k', v')" by (cases p)
  show ?case
    using Cons.IH by (simp add: p)
qed

lemma map_fst_dict_set:
  "set (map fst (dict_set k v xs)) = insert k (set (map fst xs))"
  by (simp add: map_fst_dict_set_list insert_absorb)

lemma keys_dict_set: "fst ` set (dict_set k v xs) = insert k (fst ` set xs)"
  using map_fst_dict_set [of k v xs] by simp

lemma distinct_dict_set: "distinct (map fst xs) \<Longrightarrow> distinct (map fst (dict_set k v xs))"
  by (simp add: map_fst_dict_set_list)

lemma set_fields_idem: "set_fields ri src (set_fields ri src r) = set_fields ri src r"
  by (simp add: set_fields_def)

lemma d_well_set_fields: "d_well (set_fields ri src r) = d_well r"
  by (simp add: set_fields_def)

lemma map_of_write_well:
  "map_of (write_well ri src dm dw) = (map_of dm)(dw \<mapsto> set_fields ri src (entry_or_default dm dw))"
  by (simp add: write_well_def entry_or_default_def map_of_dict_set)

lemma keys_write_well: "fst ` set (write_well ri src dm dw) = insert dw (fst ` set dm)"
  by (simp add: write_well_def keys_dict_set)

lemma distinct_write_well:
  "distinct (map fst dm) \<Longrightarrow> distinct (map fst (write_well ri src dm dw))"
  by (simp add: write_well_def distinct_dict_set)

lemma map_of_foldl_write_well:
  "map_of (foldl (write_well ri src) dm dws) w =
     (if w \<in> set dws then Some (set_fields ri src (entry_or_default dm w)) else map_of dm w)"
proof (induction dws arbitrary: dm)
  case Nil
  then show ?case by simp
next
  case (Cons dw dws)
  have e: "entry_or_default (write_well ri src dm dw) w' =
             (if w' = dw then set_fields ri src (entry_or_default dm dw)
              else entry_or_default dm w')" for w'
    by (simp add: entry_or_default_def map_of_write_well)
  show ?case
    by (simp add: Cons.IH e map_of_write_well set_fields_idem)
qed

lemma keys_foldl_write_well:
  "fst ` set (foldl (write_well ri src) dm dws) = fst ` set dm \<union> set dws"
  by (induction dws arbitrary: dm) (auto simp: keys_write_well)

lemma distinct_foldl_write_well:
  "distinct (map fst dm) \<Longrightarrow> distinct (map fst (foldl (write_well ri src) dm dws))"
  by (induction dws arbitrary: dm) (simp_all add: distinct_write_well)

lemma apply_transfer_unresolved:
  "resolved_reagent swm rv t = None \<Longrightarrow> apply_transfer swm rv dm t = dm"
  by (simp add: resolved_reagent_def apply_transfer_def split: option.splits)

lemma apply_transfer_resolved:
  "resolved_reagent swm rv t = Some ri \<Longrightarrow>
   apply_transfer swm rv dm t = foldl (write_well ri (src_well t)) dm (dest_wells t)"
  by (auto simp: resolved_reagent_def apply_transfer_def split: option.splits)

lemma keys_apply_transfer:
  "fst ` set (apply_transfer swm rv dm t) =
     fst ` set dm \<union> (if resolved_reagent swm rv t = None then {} else set (dest_wells t))"
  by (cases "resolved_reagent swm rv t")
    (simp_all add: apply_transfer_unresolved apply_transfer_resolved keys_foldl_write_well)

lemma distinct_apply_transfer:
  "distinct (map fst dm) \<Longrightarrow> distinct (map fst (apply_transfer swm rv dm t))"
  by (cases "resolved_reagent swm rv t")
    (simp_all add: apply_transfer_unresolved apply_transfer_resolved distinct_foldl_write_well)

lemma keys_foldl_apply_transfer:
  "fst ` set (foldl (apply_transfer swm rv) dm ts) =
     fst ` set dm \<union> (\<Union>t \<in> {t \<in> set ts. resolved_reagent swm rv t \<noteq> None}. set (dest_wells t))"
  by (induction ts arbitrary: dm) (auto simp: keys_apply_transfer split: if_splits)

lemma distinct_foldl_apply_transfer:
  "distinct (map fst dm) \<Longrightarrow> distinct (map fst (foldl (apply_transfer swm rv) dm ts))"
  by (induction ts arbitrary: dm) (simp_all add: distinct_apply_transfer)

lemma keys_build_dest_map:
  "fst ` set (build_dest_map swm rv ts) =
     (\<Union>t \<in> {t \<in> set ts. resolved_reagent swm rv t \<noteq> None}. set (dest_wells t))"
  by (simp add: build_dest_map_def keys_foldl_apply_transfer)

lemma distinct_build_dest_map: "distinct (map fst (build_dest_map swm rv ts))"
  by (simp add: build_dest_map_def distinct_foldl_apply_transfer)

lemma build_dest_map_snoc:
  "build_dest_map swm rv (ts @ [t]) = apply_transfer swm rv (build_dest_map swm rv ts) t"
  by (simp add: build_dest_map_def)

lemma build_dest_map_drop_unresolved:
  "resolved_reagent swm rv t = None \<Longrightarrow>
   build_dest_map swm rv (ts1 @ t # ts2) = build_dest_map swm rv (ts1 @ ts2)"
  by (simp add: build_dest_map_def apply_transfer_unresolved)

text \<open>Every entry carries its own key in its \<open>d_well\<close> field.\<close>

lemma d_well_dict_set:
  "\<forall>p \<in> set xs. d_well (snd p) = fst p \<Longrightarrow> d_well v = k' \<Longrightarrow>
   \<forall>p \<in> set (dict_set k' v xs). d_well (snd p) = fst p"
proof (induction xs)
  case Nil
  then show ?case by simp
next
  case (Cons q xs)
  obtain k1 v1 where q: "q = (k1, v1)" by (cases q)
  have "\<forall>p \<in> set (dict_set k' v xs). d_well (snd p) = fst p"
    using Cons by simp
  then show ?case
    using Cons.prems by (simp add: q)
qed

lemma d_well_write_well:
  assumes "\<forall>p \<in> set dm. d_well (snd p) = fst p"
  shows "\<forall>p \<in> set (write_well ri src dm dw). d_well (snd p) = fst p"
proof -
  have "d_well (case map_of dm dw of Some r \<Rightarrow> r | None \<Rightarrow> default_entry dw) = dw"
    using assms by (fastforce simp: default_entry_def split: option.splits dest: map_of_SomeD)
  then show ?thesis
    unfolding write_well_def Let_def
    by (intro d_well_dict_set [OF assms]) (simp add: d_well_set_fields)
qed

lemma d_well_foldl_write_well:
  "\<forall>p \<in> set dm. d_well (snd p) = fst p \<Longrightarrow>
   \<forall>p \<in> set (foldl (write_well ri src) dm dws). d_well (snd p) = fst p"
proof (induction dws arbitrary: dm)
  case Nil
  then show ?case by simp
next
  case (Cons dw dws)
  show ?case
    using Cons.IH [OF d_well_write_well [OF Cons.prems]] by simp
qed

lemma d_well_apply_transfer:
  "\<forall>p \<in> set dm. d_well (snd p) = fst p \<Longrightarrow>
   \<forall>p \<in> set (apply_transfer swm rv dm t). d_well (snd p) = fst p"
  by (cases "resolved_reagent swm rv t")
    (simp_all add: apply_transfer_unresolved apply_transfer_resolved d_well_foldl_write_well)

lemma d_well_build_dest_map:
  "\<forall>p \<in> set (build_dest_map swm rv ts). d_well (snd p) = fst p"
proof -
  have "\<forall>p \<in> set dm. d_well (snd p) = fst p \<Longrightarrow>
        \<forall>p \<in> set (foldl (apply_transfer swm rv) dm ts). d_well (snd p) = fst p" for dm
  proof (induction ts arbitrary: dm)
    case Nil
    then show ?case by simp
  next
    case (Cons t ts)
    show ?case
      using Cons.IH [OF d_well_apply_transfer [OF Cons.prems]] by simp
  qed
  from this [of "[]"] show ?thesis
    by (simp add: build_dest_map_def)
qed


lemma sort_keys_Inr: "sort_keys ws = Inr ks \<Longrightarrow> map snd ks = ws"
  by (induction ws arbitrary: ks) (auto split: sum.splits)




lemma bind_liquid_unmatched:
  "RE_AMINE nm = None \<Longrightarrow> RE_SULF nm = None \<Longrightarrow> bind_liquid m var (Some nm) = m"
  by (simp add: bind_liquid_def)

lemma bind_liquid_other_var:
  "var \<noteq> v \<Longrightarrow> bind_liquid m var nm v = m v"
  by (auto simp: bind_liquid_def split: option.splits)

lemma reagent_vars_unbound_foldl:
  assumes "\<forall>p \<in> set lqs. fst p = v \<longrightarrow>
             (case snd p of None \<Rightarrow> True | Some nm \<Rightarrow> RE_AMINE nm = None \<and> RE_SULF nm = None)"
    and "m v = None"
  shows "foldl (\<lambda>m (var, nm). bind_liquid m var nm) m lqs v = None"
  using assms
proof (induction lqs arbitrary: m)
  case Nil
  then show ?case by simp
next
  case (Cons p lqs)
  obtain var nm where p: "p = (var, nm)" by (cases p)
  have "bind_liquid m var nm v = None"
  proof (cases "var = v")
    case True
    then have "case nm of None \<Rightarrow> True | Some n \<Rightarrow> RE_AMINE n = None \<and> RE_SULF n = None"
      using Cons.prems(1) by (simp add: p)
    then have "bind_liquid m var nm = m"
      by (cases nm) (simp_all add: bind_liquid_def)
    then show ?thesis using Cons.prems(2) by simp
  next
    case False
    then show ?thesis using Cons.prems(2) by (simp add: bind_liquid_other_var)
  qed
  moreover have "\<forall>p \<in> set lqs. fst p = v \<longrightarrow>
             (case snd p of None \<Rightarrow> True | Some nm \<Rightarrow> RE_AMINE nm = None \<and> RE_SULF nm = None)"
    using Cons.prems(1) by simp
  ultimately show ?case
    using Cons.IH [of "bind_liquid m var nm"] by (simp add: p)
qed

lemma reagent_vars_of_unbound:
  assumes "\<forall>p \<in> set lqs. fst p = v \<longrightarrow>
             (case snd p of None \<Rightarrow> True | Some nm \<Rightarrow> RE_AMINE nm = None \<and> RE_SULF nm = None)"
  shows "reagent_vars_of lqs v = None"
  unfolding reagent_vars_of_def
  by (rule reagent_vars_unbound_foldl [OF assms]) simp

lemma dest_rows_of_Nil: "dest_rows_of [] = Inr []"
  by (simp add: dest_rows_of_def sorted_wells_def)

lemma map_of_build_snoc_resolved:
  assumes "resolved_reagent swm rv t = Some ri" and "w \<in> set (dest_wells t)"
  shows "map_of (build_dest_map swm rv (ts @ [t])) w =
           Some (set_fields ri (src_well t) (entry_or_default (build_dest_map swm rv ts) w))"
  using assms
  by (simp add: build_dest_map_snoc apply_transfer_resolved map_of_foldl_write_well)

lemma map_of_build_snoc_other:
  assumes "w \<notin> set (dest_wells t)"
  shows "map_of (build_dest_map swm rv (ts @ [t])) w = map_of (build_dest_map swm rv ts) w"
proof (cases "resolved_reagent swm rv t")
  case None
  then show ?thesis
    by (simp add: build_dest_map_snoc apply_transfer_unresolved)
next
  case (Some ri)
  then show ?thesis
    using assms by (simp add: build_dest_map_snoc apply_transfer_resolved map_of_foldl_write_well)
qed

lemma d_well_entry_or_default:
  "\<forall>p \<in> set dm. d_well (snd p) = fst p \<Longrightarrow> d_well (entry_or_default dm w) = w"
  by (fastforce simp: entry_or_default_def default_entry_def split: option.splits
      dest: map_of_SomeD)

text \<open>\<^verbatim>\<open>int\<close> accepts every non-empty string of digits.\<close>

lemma digits_underscores_digits:
  "ds \<noteq> [] \<Longrightarrow> list_all is_digit ds \<Longrightarrow> CHR ''_'' \<notin> set ds \<Longrightarrow> digits_underscores ds"
  by (induction ds rule: digits_underscores.induct) auto

lemma is_digit_not_int_space: "is_digit c \<Longrightarrow> \<not> is_int_space c"
  by (simp add: is_digit_def is_int_space_def Let_def)

lemma is_digit_not_special:
  "is_digit c \<Longrightarrow> c \<noteq> CHR ''_'' \<and> c \<noteq> CHR ''-'' \<and> c \<noteq> CHR ''+''"
  by (auto simp: is_digit_def Let_def)

lemma int_strip_digits:
  assumes "ds \<noteq> []" and "list_all is_digit ds"
  shows "int_strip ds = ds"
proof -
  have h: "\<not> is_int_space (hd ds)"
    using assms by (cases ds) (simp_all add: is_digit_not_int_space)
  have l: "\<not> is_int_space (last ds)"
    using assms by (simp add: is_digit_not_int_space list_all_iff)
  have 1: "dropWhile is_int_space ds = ds"
    using assms(1) h by (cases ds) simp_all
  have 2: "dropWhile is_int_space (rev ds) = rev ds"
    using assms(1) l by (cases "rev ds") (simp_all add: last_rev [symmetric] hd_rev)
  show ?thesis
    by (simp add: int_strip_def 1 2)
qed

lemma py_int_digits:
  assumes "ds \<noteq> []" and "list_all is_digit ds" and "length ds \<le> max_str_digits"
  shows "py_int ds = Some (int (nat_of_digits ds))"
proof -
  have sp: "\<forall>c \<in> set ds. c \<noteq> CHR ''_'' \<and> c \<noteq> CHR ''-'' \<and> c \<noteq> CHR ''+''"
    using assms(2) is_digit_not_special by (auto simp: list_all_iff)
  then have hd: "hd ds \<noteq> CHR ''-''" "hd ds \<noteq> CHR ''+''"
    using assms(1) by (cases ds; simp)+
  have us: "CHR ''_'' \<notin> set ds" using sp by blast
  then have fl: "filter (\<lambda>c. c \<noteq> CHR ''_'') ds = ds"
    by (induction ds) auto
  have fd: "filter is_digit ds = ds"
    using assms(2) by (induction ds) auto
  show ?thesis
    using assms hd fl fd digits_underscores_digits [OF assms(1,2) us]
    by (simp add: py_int_def int_strip_digits Let_def)
qed

text \<open>
  A number of more than 4300 digits is refused, and so is one behind a separator that only
  \<^verbatim>\<open>str.strip\<close> takes for whitespace.
\<close>

lemma py_int_too_long:
  assumes "list_all is_digit ds" and "max_str_digits < length ds"
  shows "py_int ds = None"
proof -
  have ne: "ds \<noteq> []"
    using assms(2) by auto
  have sp: "\<forall>c \<in> set ds. c \<noteq> CHR ''_'' \<and> c \<noteq> CHR ''-'' \<and> c \<noteq> CHR ''+''"
    using assms(1) is_digit_not_special by (auto simp: list_all_iff)
  then have hd: "hd ds \<noteq> CHR ''-''" "hd ds \<noteq> CHR ''+''"
    using ne by (cases ds; simp)+
  have fd: "filter is_digit ds = ds"
    using assms(1) by (induction ds) auto
  show ?thesis
    using assms(2) hd fd by (simp add: py_int_def int_strip_digits [OF ne assms(1)] Let_def)
qed

lemma py_int_separator: "py_int [CHR 0x1F, CHR ''5''] = None \<and> py_int [CHR 0x0B, CHR ''5''] = Some 5"
  by (simp add: py_int_def int_strip_def is_int_space_def is_digit_def max_str_digits_def
      nat_of_digits_def digit_val_def)


text \<open>The example script, evaluated.\<close>

lemma demo_run_load_C1: "source_well_map_of (loads demo_run) ''C1'' = Some ''solvent''"
  by (simp add: demo_run_def source_well_map_of_def)


lemma demo_run_load_B2: "source_well_map_of (loads demo_run) ''B2'' = Some ''sulfonyl_2''"
  by (simp add: demo_run_def source_well_map_of_def)

lemma demo_run_solvent_unbound: "reagent_vars_of (liquids demo_run) ''solvent'' = None"
  by (simp add: demo_run_def reagent_vars_of_def bind_liquid_def RE_AMINE_def RE_SULF_def
      match_name_number_def upper_char_def is_space_def is_digit_def)


lemma demo_run_sulfonyl_2:
  "reagent_vars_of (liquids demo_run) ''sulfonyl_2'' =
     Some \<lparr>r_class = ''sulfonyl'', r_num = 2, r_name = ''SulfonylCl 2''\<rparr>"
  by (simp add: demo_run_def reagent_vars_of_def bind_liquid_def RE_AMINE_def RE_SULF_def
      match_name_number_def upper_char_def is_space_def is_digit_def nat_of_digits_def
      digit_val_def)

lemmas demo_run_eval =
  parse_protocol_def demo_run_def reagent_vars_of_def bind_liquid_def RE_AMINE_def RE_SULF_def
  match_name_number_def upper_char_def is_space_def is_digit_def nat_of_digits_def digit_val_def
  source_well_map_of_def build_dest_map_def apply_transfer_def write_well_def set_fields_def
  default_entry_def dest_rows_of_def sorted_wells_def well_sort_key_def py_int_def
  int_strip_def is_int_space_def max_str_digits_def


section \<open>Facts about identifiers and the merge\<close>

lemma digit_val_digit_char: "d < 10 \<Longrightarrow> digit_val (digit_char d) = d"
proof -
  assume "d < 10"
  then consider "d = 0" | "d = 1" | "d = 2" | "d = 3" | "d = 4" | "d = 5" | "d = 6"
    | "d = 7" | "d = 8" | "d = 9"
    by atomize_elim arith
  then show ?thesis
    by cases (simp_all add: digit_val_def digit_char_def)
qed

lemma nat_of_digits_snoc:
  "nat_of_digits (xs @ [c]) = 10 * nat_of_digits xs + digit_val c"
  by (simp add: nat_of_digits_def)

lemma nat_of_digits_str_nat: "nat_of_digits (str_nat n) = n"
proof (induction n rule: str_nat.induct)
  case (1 n)
  show ?case
  proof (cases "n < 10")
    case True
    then show ?thesis
      by (simp add: str_nat.simps [of n] nat_of_digits_def digit_val_digit_char)
  next
    case False
    then have "nat_of_digits (str_nat (n div 10)) = n div 10"
      using "1.IH" by simp
    then show ?thesis
      using False
      by (simp add: str_nat.simps [of n] nat_of_digits_snoc digit_val_digit_char)
  qed
qed

lemma length_str_nat_pos: "0 < length (str_nat n)"
  by (subst str_nat.simps) simp

lemma length_str_nat_le: "n < 10 ^ k \<Longrightarrow> 0 < k \<Longrightarrow> length (str_nat n) \<le> k"
proof (induction n arbitrary: k rule: str_nat.induct)
  case (1 n)
  show ?case
  proof (cases "n < 10")
    case True
    then show ?thesis
      using "1.prems" by (simp add: str_nat.simps [of n])
  next
    case False
    obtain j where k: "k = Suc j" using "1.prems"(2) by (cases k) simp_all
    have j: "0 < j"
    proof (rule ccontr)
      assume "\<not> 0 < j"
      then show False using "1.prems"(1) False k by simp
    qed
    have "n div 10 < 10 ^ j"
      using "1.prems"(1) k by (simp add: less_mult_imp_div_less mult.commute)
    then have "length (str_nat (n div 10)) \<le> j"
      using "1.IH" [OF False _ j] by simp
    then show ?thesis
      using False k by (simp add: str_nat.simps [of n])
  qed
qed

lemma nat_of_digits_zeros:
  "nat_of_digits (replicate k (CHR ''0'') @ s) = nat_of_digits s"
proof -
  have "foldl (\<lambda>acc c. 10 * acc + digit_val c) 0 (replicate k (CHR ''0'')) = 0"
    by (induction k) (simp_all add: digit_val_def)
  then show ?thesis
    by (simp add: nat_of_digits_def)
qed

lemma nat_of_digits_format_0d:
  "0 \<le> n \<Longrightarrow> nat_of_digits (format_0d w n) = nat n"
  by (simp add: format_0d_def zfill_def nat_of_digits_zeros nat_of_digits_str_nat)

lemma format_0d_inj:
  assumes "0 \<le> n" "0 \<le> m" "format_0d w n = format_0d w m"
  shows "n = m"
proof -
  have "nat n = nat m"
    using nat_of_digits_format_0d [OF assms(1), of w] nat_of_digits_format_0d [OF assms(2), of w]
      assms(3) by simp
  then show ?thesis using assms(1,2) by simp
qed

lemma length_zfill: "length (zfill w s) = max w (length s)"
  by (simp add: zfill_def)

lemma length_format_0d_6: "6 \<le> length (format_0d 6 i)"
  by (simp add: format_0d_def length_zfill)

lemma length_format_0d_3_small:
  assumes "0 \<le> n" "n < 100000"
  shows "length (format_0d 3 n) \<le> 5"
proof -
  have "nat n < 10 ^ 5" using assms by simp
  then have "length (str_nat (nat n)) \<le> 5"
    by (rule length_str_nat_le) simp
  then show ?thesis
    using assms(1) by (simp add: format_0d_def length_zfill)
qed

lemma length_format_0d_3_three:
  assumes "0 \<le> n" "n < 1000"
  shows "length (format_0d 3 n) = 3"
proof -
  have "nat n < 10 ^ 3" using assms by simp
  then have "length (str_nat (nat n)) \<le> 3"
    by (rule length_str_nat_le) simp
  then show ?thesis
    using assms(1) by (simp add: format_0d_def length_zfill)
qed

lemma astype_int_present:
  "\<forall>c \<in> set cs. c \<noteq> None \<Longrightarrow> astype_int cs = Inr (map the cs)"
  by (induction cs rule: astype_int.induct) simp_all

lemma astype_int_blank:
  "None \<in> set cs \<Longrightarrow> astype_int cs = Inl ValueError"
  by (induction cs rule: astype_int.induct) (auto split: sum.splits)

lemma zip_zip_map: "zip xs (zip (map f xs) (map g xs)) = map (\<lambda>x. (x, f x, g x)) xs"
  by (induction xs) simp_all

text \<open>The merge after \<^verbatim>\<open>astype(int)\<close> has succeeded on both number columns.\<close>

lemma merge_main_numbered:
  assumes "\<forall>d \<in> set df_dest. row_sulfonyl_num d \<noteq> None \<and> row_amine_num d \<noteq> None"
  shows "merge_main df_dest df_prod =
           (case merge_left (numbered df_dest) df_prod of
              Inl e \<Rightarrow> Inl e
            | Inr dfm \<Rightarrow>
                Inr \<lparr>out_rows = dfm,
                     missing_rows = filter (\<lambda>r. m_SMILES r = None) dfm,
                     qc_lines = qc_report dfm (filter (\<lambda>r. m_SMILES r = None) dfm),
                     exit_code = (if filter (\<lambda>r. m_SMILES r = None) dfm = [] then 0 else 1)\<rparr>)"
proof -
  have s: "astype_int (map row_sulfonyl_num df_dest) =
             Inr (map (\<lambda>d. the (row_sulfonyl_num d)) df_dest)"
    using astype_int_present [of "map row_sulfonyl_num df_dest"] assms by (simp add: comp_def)
  have a: "astype_int (map row_amine_num df_dest) =
             Inr (map (\<lambda>d. the (row_amine_num d)) df_dest)"
    using astype_int_present [of "map row_amine_num df_dest"] assms by (simp add: comp_def)
  have z: "zip df_dest (zip (map (\<lambda>d. the (row_sulfonyl_num d)) df_dest)
             (map (\<lambda>d. the (row_amine_num d)) df_dest)) = numbered df_dest"
    using zip_zip_map [of df_dest "\<lambda>d. the (row_sulfonyl_num d)" "\<lambda>d. the (row_amine_num d)"]
    by (simp add: numbered_def)
  show ?thesis
    unfolding merge_main_def s a sum.case Let_def z by (simp split: sum.splits)
qed

lemma merge_left_text_keys:
  assumes "S_ID_dtype df_prod = ObjectDtype" and "Amine_ID_dtype df_prod = ObjectDtype"
  shows "merge_left rows df_prod = Inr (concat (map (join_row (prod_rows df_prod)) rows))"
  using assms by (simp add: merge_left_def)

lemma merge_left_numeric_key:
  assumes "rows \<noteq> []" and "prod_rows df_prod \<noteq> []"
    and "S_ID_dtype df_prod = NumericDtype \<or> Amine_ID_dtype df_prod = NumericDtype"
  shows "merge_left rows df_prod = Inl ValueError"
  using assms by (simp add: merge_left_def)

lemma merge_left_Inl_iff:
  "(\<exists>e. merge_left rows df_prod = Inl e) =
     (rows \<noteq> [] \<and> prod_rows df_prod \<noteq> [] \<and>
      (S_ID_dtype df_prod = NumericDtype \<or> Amine_ID_dtype df_prod = NumericDtype))"
  by (simp add: merge_left_def)

lemma merge_main_present:
  assumes "\<forall>d \<in> set df_dest. row_sulfonyl_num d \<noteq> None \<and> row_amine_num d \<noteq> None"
    and "S_ID_dtype df_prod = ObjectDtype" and "Amine_ID_dtype df_prod = ObjectDtype"
  shows "merge_main df_dest df_prod =
           Inr \<lparr>out_rows = concat (map (join_row (prod_rows df_prod)) (numbered df_dest)),
                missing_rows =
                  filter (\<lambda>r. m_SMILES r = None)
                    (concat (map (join_row (prod_rows df_prod)) (numbered df_dest))),
                qc_lines =
                  qc_report (concat (map (join_row (prod_rows df_prod)) (numbered df_dest)))
                    (filter (\<lambda>r. m_SMILES r = None)
                       (concat (map (join_row (prod_rows df_prod)) (numbered df_dest)))),
                exit_code =
                  (if filter (\<lambda>r. m_SMILES r = None)
                        (concat (map (join_row (prod_rows df_prod)) (numbered df_dest))) = []
                   then 0 else 1)\<rparr>"
  unfolding merge_main_numbered [OF assms(1)] merge_left_text_keys [OF assms(2,3)] by simp

lemma merge_main_blank:
  assumes "\<exists>d \<in> set df_dest. row_sulfonyl_num d = None \<or> row_amine_num d = None"
  shows "merge_main df_dest df_prod = Inl ValueError"
proof -
  from assms obtain d where d: "d \<in> set df_dest"
    "row_sulfonyl_num d = None \<or> row_amine_num d = None"
    by blast
  show ?thesis
  proof (cases "None \<in> set (map row_sulfonyl_num df_dest)")
    case True
    then show ?thesis
      by (simp add: merge_main_def astype_int_blank)
  next
    case False
    then have "row_amine_num d = None" using d by force
    then have n: "None \<in> set (map row_amine_num df_dest)" using d(1) by force
    have "\<forall>c \<in> set (map row_sulfonyl_num df_dest). c \<noteq> None"
      using False by metis
    then have "astype_int (map row_sulfonyl_num df_dest) =
                 Inr (map the (map row_sulfonyl_num df_dest))"
      by (rule astype_int_present)
    then show ?thesis
      by (simp add: merge_main_def astype_int_blank [OF n])
  qed
qed

text \<open>The rows of the join and their SMILES.\<close>

lemma m_SMILES_join_row:
  "row \<in> set (join_row rows (d, n, m)) \<Longrightarrow>
   (m_SMILES row = None) =
     ((\<forall>p \<in> set rows. \<not> (S_ID p = Some (s_id (sint n)) \<and> Amine_ID p = Some (amine_id (sint m)))) \<or>
      (\<exists>p \<in> set rows. S_ID p = Some (s_id (sint n)) \<and> Amine_ID p = Some (amine_id (sint m)) \<and>
         SMILES p = None \<and> row = matched_row d n m p))"
  by (auto simp: join_row_def Let_def filter_empty_conv unmatched_row_def matched_row_def
      split: if_splits)

lemma join_row_nonempty: "join_row rows dnm \<noteq> []"
  by (cases dnm) (simp add: join_row_def Let_def)

lemma missing_empty_iff:
  assumes "\<forall>p \<in> set rows. SMILES p \<noteq> None"
  shows "(filter (\<lambda>r. m_SMILES r = None) (concat (map (join_row rows) dnms)) = []) =
         (\<forall>(d, n, m) \<in> set dnms. \<exists>p \<in> set rows.
            S_ID p = Some (s_id (sint n)) \<and> Amine_ID p = Some (amine_id (sint m)))"
proof
  assume l: "filter (\<lambda>r. m_SMILES r = None) (concat (map (join_row rows) dnms)) = []"
  show "\<forall>(d, n, m) \<in> set dnms. \<exists>p \<in> set rows.
          S_ID p = Some (s_id (sint n)) \<and> Amine_ID p = Some (amine_id (sint m))"
  proof (rule ccontr)
    assume "\<not> ?thesis"
    then obtain d n m where r: "(d, n, m) \<in> set dnms"
      and no: "\<forall>p \<in> set rows.
                 \<not> (S_ID p = Some (s_id (sint n)) \<and> Amine_ID p = Some (amine_id (sint m)))"
      by blast
    have "join_row rows (d, n, m) = [unmatched_row d n m]"
      using no by (simp add: join_row_def Let_def filter_empty_conv)
    then have "unmatched_row d n m \<in> set (concat (map (join_row rows) dnms))"
      using r by force
    moreover have "m_SMILES (unmatched_row d n m) = None"
      by (simp add: unmatched_row_def)
    ultimately show False
      using l by (force simp: filter_empty_conv)
  qed
next
  assume r: "\<forall>(d, n, m) \<in> set dnms. \<exists>p \<in> set rows.
               S_ID p = Some (s_id (sint n)) \<and> Amine_ID p = Some (amine_id (sint m))"
  show "filter (\<lambda>r. m_SMILES r = None) (concat (map (join_row rows) dnms)) = []"
  proof (rule ccontr)
    assume "\<not> ?thesis"
    then obtain row where row: "row \<in> set (concat (map (join_row rows) dnms))" "m_SMILES row = None"
      by (auto simp: filter_empty_conv)
    then obtain d n m where dnm: "(d, n, m) \<in> set dnms" "row \<in> set (join_row rows (d, n, m))"
      by auto
    show False
      using m_SMILES_join_row [OF dnm(2)] row(2) r dnm(1) assms by blast
  qed
qed

text \<open>With unique keys every destination row joins to exactly one merged row.\<close>

lemma filter_distinct_key:
  "distinct (map f xs) \<Longrightarrow>
   filter (\<lambda>x. f x = k) xs = (case find (\<lambda>x. f x = k) xs of None \<Rightarrow> [] | Some x \<Rightarrow> [x])"
proof (induction xs)
  case Nil
  then show ?case by simp
next
  case (Cons x xs)
  show ?case
  proof (cases "f x = k")
    case True
    have "\<forall>y \<in> set xs. f y \<noteq> k"
    proof
      fix y assume y: "y \<in> set xs"
      show "f y \<noteq> k"
      proof
        assume "f y = k"
        then have "f x \<in> f ` set xs" using y True by (metis image_eqI)
        then show False using Cons.prems by simp
      qed
    qed
    then have "filter (\<lambda>x. f x = k) xs = []" by (simp add: filter_empty_conv)
    then show ?thesis using True by simp
  next
    case False
    then show ?thesis using Cons by simp
  qed
qed

lemma join_row_distinct:
  assumes "distinct (map (\<lambda>p. (S_ID p, Amine_ID p)) rows)"
  shows "join_row rows (d, n, m) = [join_one rows d n m]"
proof -
  have f: "filter (\<lambda>p. S_ID p = Some (s_id (sint n)) \<and> Amine_ID p = Some (amine_id (sint m))) rows =
           (case find (\<lambda>p. S_ID p = Some (s_id (sint n)) \<and>
                            Amine_ID p = Some (amine_id (sint m))) rows of
              None \<Rightarrow> [] | Some x \<Rightarrow> [x])"
    using filter_distinct_key [OF assms, of "(Some (s_id (sint n)), Some (amine_id (sint m)))"]
    by simp
  show ?thesis
    by (simp add: join_row_def join_one_def f Let_def split: option.splits)
qed

lemma concat_join_row_distinct:
  assumes "distinct (map (\<lambda>p. (S_ID p, Amine_ID p)) rows)"
  shows "concat (map (join_row rows) dnms) = map (\<lambda>(d, n, m). join_one rows d n m) dnms"
proof (induction dnms)
  case Nil
  then show ?case by simp
next
  case (Cons r dnms)
  obtain d n m where r: "r = (d, n, m)" by (cases r)
  show ?case
    using Cons by (simp add: r join_row_distinct [OF assms])
qed

lemma join_one_fields:
  "m_Well (join_one rows d n m) = row_Well d \<and>
   m_sulfonyl_num (join_one rows d n m) = n \<and>
   m_amine_num (join_one rows d n m) = m \<and>
   m_sulfonyl_source_well (join_one rows d n m) = row_sulfonyl_source_well d \<and>
   m_amine_source_well (join_one rows d n m) = row_amine_source_well d \<and>
   m_S_ID (join_one rows d n m) = s_id (sint n) \<and>
   m_Amine_ID (join_one rows d n m) = amine_id (sint m)"
  by (simp add: join_one_def unmatched_row_def matched_row_def split: option.splits)

lemma join_one_product:
  "(case find (\<lambda>p. S_ID p = Some (s_id (sint n)) \<and> Amine_ID p = Some (amine_id (sint m))) rows of
      None \<Rightarrow> m_ProductID (join_one rows d n m) = None \<and>
              m_SMILES (join_one rows d n m) = None \<and>
              m_Status (join_one rows d n m) = None
    | Some p \<Rightarrow> m_ProductID (join_one rows d n m) = Some (ProductID p) \<and>
                m_SMILES (join_one rows d n m) = SMILES p \<and>
                m_Status (join_one rows d n m) = Some (Status p))"
  by (simp add: join_one_def unmatched_row_def matched_row_def split: option.splits)


text \<open>Padding by a small number of characters, for evaluation.\<close>

lemma replicate_small:
  "replicate 1 x = [x]" "replicate 2 x = [x, x]" "replicate 3 x = [x, x, x]"
  "replicate 4 x = [x, x, x, x]" "replicate 5 x = [x, x, x, x, x]"
  "replicate 6 x = [x, x, x, x, x, x]"
  by (simp_all add: numeral_eq_Suc)


text \<open>Facts for the further properties.\<close>

lemma best_effort_product_Inr:
  assumes "fallback_total rd"
  shows "\<exists>r. best_effort_product rd (Some x) (Some y) = Inr r"
proof -
  obtain combo t where "CombineMols rd (Some x) (Some y) = Some combo"
    "MolToSmiles rd (SanitizeMol_catchErrors rd combo) = Some t"
    using assms unfolding fallback_total_def by blast
  then have fb: "fallback_product rd (Some x) (Some y) = Inr (t, ''FALLBACK_COMBINEMOLS'')"
    by (simp add: fallback_product_def)
  show ?thesis
  proof (cases "first_sanitized_product_smiles rd (Some x) (Some y)")
    case None
    then show ?thesis using fb by (simp add: best_effort_product_def)
  next
    case (Some smi)
    then show ?thesis using fb by (cases smi) (simp_all add: best_effort_product_def)
  qed
qed

lemma sort_keys_keys:
  "sort_keys ws = Inr ks \<Longrightarrow> \<forall>p \<in> set ks. well_sort_key (snd p) = Inr (fst p)"
  by (induction ws arbitrary: ks) (auto split: sum.splits)

section \<open>Claims about the plate assignment\<close>

text \<open>
  Claim C3, as the specification states it, quantifies over the plate geometry: for every
  \<open>rows\<close>, \<open>cols\<close> the coordinate of index \<open>i\<close> is plate \<open>i div capacity + 1\<close>, row
  \<open>(i mod capacity) mod rows\<close>, column \<open>(i mod capacity) div rows + 1\<close>. The program's
  \<open>plate_assign_96\<close> takes no geometry. At the specification's own example geometry of 2 rows
  and 1 column, index 2 is on plate 2 (row A, column 1) by the formula, while the program
  puts it on plate 1, row C, column 1.
\<close>

theorem plate_assign_96_fixed_geometry_counterexample:
  "plate_assign_96 3 ! 2 = \<lparr>Plate = 1, Row = ''C'', Col = 1, Well = ''C1''\<rparr> \<and>
   coordinateOf_spec 2 2 1 = (2, 0, 1) \<and>
   Plate (plate_assign_96 3 ! 2) \<noteq> fst (coordinateOf_spec 2 2 1)"
  by (simp add: plate_assign_96_nth coord_of_def coordinateOf_spec_def row_labels_96_def
      str_nat.simps digit_char_def)

text \<open>
  Claim C3, amended: for the one geometry the program has (8 rows, 12 columns, capacity 96),
  \<open>plate_assign_96 n\<close> returns \<open>n\<close> records without any error case, and the record of every
  index \<open>i < n\<close> is column-major arithmetic: plate \<open>i div 96 + 1\<close>, column
  \<open>(i mod 96) div 8 + 1\<close>, row letter number \<open>(i mod 96) mod 8\<close> of A..H (the row varies
  fastest), and the well label is the row letter followed by the column in decimal. This is
  the specification's formula at \<open>rows = 8\<close>, \<open>cols = 12\<close>; so after 96 indices the plate
  number is one higher and the position is again column 1, row A.
\<close>

theorem plate_assign_96_column_major:
  assumes "i < nat n"
  shows "length (plate_assign_96 n) = nat n \<and>
         Plate (plate_assign_96 n ! i) = i div 96 + 1 \<and>
         Col (plate_assign_96 n ! i) = (i mod 96) div 8 + 1 \<and>
         Row (plate_assign_96 n ! i) = row_labels_96 ! ((i mod 96) mod 8) \<and>
         Well (plate_assign_96 n ! i) =
           Row (plate_assign_96 n ! i) @ str_nat (Col (plate_assign_96 n ! i)) \<and>
         coordinateOf_spec i 8 12 =
           (Plate (plate_assign_96 n ! i), (i mod 96) mod 8, Col (plate_assign_96 n ! i))"
  using assms
  by (simp add: length_plate_assign_96 plate_assign_96_nth coord_of_def coordinateOf_spec_def
      Let_def)

theorem plate_assign_96_column_major_witness:
  "(97::nat) < nat 98 \<and> length (plate_assign_96 98) = 98 \<and>
   Plate (plate_assign_96 98 ! 97) = 2 \<and> Col (plate_assign_96 98 ! 97) = 1 \<and>
   Row (plate_assign_96 98 ! 97) = ''B'' \<and> Well (plate_assign_96 98 ! 97) = ''B1''"
  using plate_assign_96_column_major [of 97 98]
  by (simp add: row_labels_96_def str_nat.simps digit_char_def)

text \<open>
  Claim C4, as stated, asks for \<open>indexOf (coordinateOf i) = i\<close> at every plate geometry. With
  the inverse of the specification's arithmetic at 2 rows and 1 column, index 8 is not
  recovered from the coordinate the program assigns to it (plate 1, row A, column 2).
\<close>

theorem indexOf_other_geometry_counterexample:
  "plate_assign_96 9 ! 8 = \<lparr>Plate = 1, Row = ''A'', Col = 2, Well = ''A2''\<rparr> \<and>
   indexOf 2 1 (plate_assign_96 9 ! 8) = Some 2 \<and>
   indexOf 2 1 (plate_assign_96 9 ! 8) \<noteq> Some 8"
  by (simp add: plate_assign_96_nth coord_of_def indexOf_def row_labels_96_def
      str_nat.simps digit_char_def)

text \<open>
  Claim C4, amended: the program provides no \<open>indexOf\<close>. For its fixed geometry of 8 rows and
  12 columns the index is recovered from the record of \<open>plate_assign_96\<close> by
  \<open>(plate - 1) * 96 + (column - 1) * 8 + row\<close>, so distinct indices have distinct records,
  and every well of every plate that lies below \<open>n\<close> is the record of its index: the
  assignment is a bijection between the indices below \<open>k * 96\<close> and the wells of plates
  \<open>1..k\<close>.
\<close>

theorem indexOf_left_inverse_96:
  assumes "i < nat n"
  shows "indexOf 8 12 (plate_assign_96 n ! i) = Some i \<and>
         (\<forall>j. j < nat n \<and> plate_assign_96 n ! j = plate_assign_96 n ! i \<longrightarrow> j = i) \<and>
         (\<forall>p r c. 1 \<le> p \<and> r < 8 \<and> 1 \<le> c \<and> c \<le> 12 \<and>
                  (p - 1) * 96 + (c - 1) * 8 + r < nat n \<longrightarrow>
            plate_assign_96 n ! ((p - 1) * 96 + (c - 1) * 8 + r) =
              \<lparr>Plate = p, Row = row_labels_96 ! r, Col = c,
               Well = row_labels_96 ! r @ str_nat c\<rparr>)"
proof (intro conjI allI impI)
  show "indexOf 8 12 (plate_assign_96 n ! i) = Some i"
    using assms by (simp add: plate_assign_96_nth indexOf_coord_of_96)
next
  fix j
  assume j: "j < nat n \<and> plate_assign_96 n ! j = plate_assign_96 n ! i"
  then have "j < nat n" and "plate_assign_96 n ! j = plate_assign_96 n ! i"
    by simp_all
  then have "coord_of row_labels_96 8 12 j = coord_of row_labels_96 8 12 i"
    using assms plate_assign_96_nth [of j n] plate_assign_96_nth [of i n] by simp
  then have "indexOf 8 12 (coord_of row_labels_96 8 12 j) =
             indexOf 8 12 (coord_of row_labels_96 8 12 i)"
    by simp
  then show "j = i"
    by (simp add: indexOf_coord_of_96)
next
  fix p r c
  assume h: "1 \<le> p \<and> r < 8 \<and> 1 \<le> c \<and> c \<le> 12 \<and> (p - 1) * 96 + (c - 1) * 8 + r < nat n"
  then have "coord_of row_labels_96 8 12 ((p - 1) * 96 + (c - 1) * 8 + r) =
      \<lparr>Plate = p, Row = row_labels_96 ! r, Col = c, Well = row_labels_96 ! r @ str_nat c\<rparr>"
    by (intro coord_of_96_onto) simp_all
  moreover have "plate_assign_96 n ! ((p - 1) * 96 + (c - 1) * 8 + r) =
      coord_of row_labels_96 8 12 ((p - 1) * 96 + (c - 1) * 8 + r)"
    using h by (intro plate_assign_96_nth) simp
  ultimately show "plate_assign_96 n ! ((p - 1) * 96 + (c - 1) * 8 + r) =
      \<lparr>Plate = p, Row = row_labels_96 ! r, Col = c, Well = row_labels_96 ! r @ str_nat c\<rparr>"
    by simp
qed

theorem indexOf_left_inverse_96_witness:
  "(100::nat) < nat 192 \<and> indexOf 8 12 (plate_assign_96 192 ! 100) = Some 100 \<and>
   plate_assign_96 192 ! 100 = \<lparr>Plate = 2, Row = ''E'', Col = 1, Well = ''E1''\<rparr>"
proof -
  have h: "(100::nat) < nat 192" by simp
  have a: "indexOf 8 12 (plate_assign_96 192 ! 100) = Some 100"
    using indexOf_left_inverse_96 [OF h] by simp
  have "(1::nat) \<le> 2 \<and> (4::nat) < 8 \<and> (1::nat) \<le> 1 \<and> (1::nat) \<le> 12 \<and>
        (2 - 1) * 96 + (1 - 1) * 8 + 4 < nat 192"
    by simp
  then have "plate_assign_96 192 ! ((2 - 1) * 96 + (1 - 1) * 8 + 4) =
      \<lparr>Plate = 2, Row = row_labels_96 ! 4, Col = 1, Well = row_labels_96 ! 4 @ str_nat 1\<rparr>"
    using indexOf_left_inverse_96 [OF h] by blast
  then have b: "plate_assign_96 192 ! 100 = \<lparr>Plate = 2, Row = ''E'', Col = 1, Well = ''E1''\<rparr>"
    by (simp add: row_labels_96_def str_nat.simps digit_char_def)
  show ?thesis using h a b by simp
qed

section \<open>Claims about the enumeration\<close>

text \<open>
  Claim C1: for sulfonyl and amine lists of sizes \<open>N\<close> and \<open>M\<close>, the enumerator yields exactly
  \<open>N * M\<close> products; their ProductID values are \<open>0, 1, ..., N * M - 1\<close> in this order, each
  once; the product at position \<open>i * M + j\<close> has that ProductID and pairs sulfonyl \<open>i\<close> with
  amine \<open>j\<close> (the sulfonyl list is the outer, slow axis), whatever the outcome
  (\<^verbatim>\<open>OK_REACTION\<close> or \<^verbatim>\<open>FALLBACK_COMBINEMOLS\<close>) of each pair. The one premise is that the
  library calls outside any \<^verbatim>\<open>try\<close> do not raise on a pair of the lists: an exception
  there ends the generator.
\<close>

theorem enumerate_one_step_row_major:
  assumes "\<And>s a. s \<in> set sulfonyls \<Longrightarrow> a \<in> set amines \<Longrightarrow>
             \<exists>r. best_effort_product rd (MolFromSmiles rd (smiles s))
                   (MolFromSmiles rd (smiles a)) = Inr r"
  shows "\<exists>ps. enumerate_one_step rd sulfonyls amines = Inr ps \<and>
              length ps = length sulfonyls * length amines \<and>
              map fst ps = [0..<length sulfonyls * length amines] \<and>
              (\<forall>i < length sulfonyls. \<forall>j < length amines. \<exists>smi st.
                 best_effort_product rd (MolFromSmiles rd (smiles (sulfonyls ! i)))
                   (MolFromSmiles rd (smiles (amines ! j))) = Inr (smi, st) \<and>
                 ps ! (i * length amines + j) =
                   (i * length amines + j, sulfonyls ! i, amines ! j, smi, st))"
proof -
  from enumerate_sulfonyls_ok [OF assms, where pid = 0]
  obtain ps where ps: "enumerate_sulfonyls rd sulfonyls amines 0 = Inr ps"
    "length ps = length sulfonyls * length amines"
    "\<forall>i < length sulfonyls. \<forall>j < length amines. \<exists>smi st.
                 best_effort_product rd (MolFromSmiles rd (smiles (sulfonyls ! i)))
                   (MolFromSmiles rd (smiles (amines ! j))) = Inr (smi, st) \<and>
                 ps ! (i * length amines + j) =
                   (0 + (i * length amines + j), sulfonyls ! i, amines ! j, smi, st)"
    by blast
  have "\<forall>i < length sulfonyls. \<forall>j < length amines.
          fst (ps ! (i * length amines + j)) = i * length amines + j"
    using ps(3) by fastforce
  then have "map fst ps = [0..<length sulfonyls * length amines]"
    using ps(2) by (intro map_fst_upt) simp_all
  then show ?thesis
    using ps by (intro exI [of _ ps]) (simp add: enumerate_one_step_def)
qed

theorem enumerate_one_step_row_major_witness:
  "\<exists>ps. enumerate_one_step demo_rdkit
           [\<lparr>smiles = ''CS(=O)(=O)Cl'', rid = ''S_001'', name = ''S_001''\<rparr>,
            \<lparr>smiles = ''OS(=O)(=O)Cl'', rid = ''S_002'', name = ''S_002''\<rparr>]
           [\<lparr>smiles = ''N'', rid = ''Amine_001'', name = ''Amine_001''\<rparr>] = Inr ps \<and>
         length ps = 2 \<and> map fst ps = [0, 1]"
proof -
  let ?ss = "[\<lparr>smiles = ''CS(=O)(=O)Cl'', rid = ''S_001'', name = ''S_001''\<rparr>,
              \<lparr>smiles = ''OS(=O)(=O)Cl'', rid = ''S_002'', name = ''S_002''\<rparr>]"
  let ?as = "[\<lparr>smiles = ''N'', rid = ''Amine_001'', name = ''Amine_001''\<rparr>]"
  have h: "\<And>s a. s \<in> set ?ss \<Longrightarrow> a \<in> set ?as \<Longrightarrow>
             \<exists>r. best_effort_product demo_rdkit (MolFromSmiles demo_rdkit (smiles s))
                   (MolFromSmiles demo_rdkit (smiles a)) = Inr r"
    by (auto simp: best_effort_product_def first_sanitized_product_smiles_def demo_rdkit_def)
  have u: "[0..<2] = [0, 1::nat]"
    by (simp add: upt_rec)
  from enumerate_one_step_row_major [of ?ss ?as demo_rdkit, OF h]
  obtain ps where "enumerate_one_step demo_rdkit ?ss ?as = Inr ps"
    and "length ps = length ?ss * length ?as"
    and "map fst ps = [0..<length ?ss * length ?as]"
    by blast
  then show ?thesis
    using u by (intro exI [of _ ps]) simp
qed

text \<open>
  Claim C2: for a pair of reagents whose structures parse (the input boundary,
  \<^verbatim>\<open>load_reagents_csv\<close>, keeps only such reagents), producing the product does not raise.
  Whatever the reaction does (it may raise, return no product set, or only products that fail
  to sanitize or to print, or an empty text), the fallback is taken and, under the oracle's
  contract that combining two molecules succeeds, returns the combination: the pair yields
  exactly one product, with status \<^verbatim>\<open>OK_REACTION\<close> exactly when the reaction gave a
  non-empty first sanitized product, and \<^verbatim>\<open>FALLBACK_COMBINEMOLS\<close> otherwise.
\<close>

theorem best_effort_product_never_raises:
  assumes "fallback_total rd"
    and "MolFromSmiles rd (smiles s) = Some x"
    and "MolFromSmiles rd (smiles a) = Some y"
  shows "\<exists>smi st.
           best_effort_product rd (MolFromSmiles rd (smiles s)) (MolFromSmiles rd (smiles a)) =
             Inr (smi, st) \<and>
           (st = ''OK_REACTION'' \<or> st = ''FALLBACK_COMBINEMOLS'') \<and>
           ((st = ''OK_REACTION'') =
              (\<exists>c cs. first_sanitized_product_smiles rd (Some x) (Some y) = Some (c # cs))) \<and>
           enumerate_one_step rd [s] [a] = Inr [(0, s, a, smi, st)]"
proof -
  obtain combo t where f: "CombineMols rd (Some x) (Some y) = Some combo"
    "MolToSmiles rd (SanitizeMol_catchErrors rd combo) = Some t"
    using assms(1) unfolding fallback_total_def by blast
  have fb: "fallback_product rd (Some x) (Some y) = Inr (t, ''FALLBACK_COMBINEMOLS'')"
    by (simp add: fallback_product_def f)
  show ?thesis
  proof (cases "first_sanitized_product_smiles rd (Some x) (Some y)")
    case None
    then show ?thesis
      using fb assms(2,3) by (simp add: best_effort_product_def enumerate_one_step_def)
  next
    case (Some smi)
    then show ?thesis
      using fb assms(2,3)
      by (cases smi) (simp_all add: best_effort_product_def enumerate_one_step_def)
  qed
qed

theorem best_effort_product_never_raises_witness:
  "fallback_total demo_rdkit \<and>
   MolFromSmiles demo_rdkit (smiles \<lparr>smiles = ''CS(=O)(=O)Cl'', rid = ''S_001'', name = ''S_001''\<rparr>) =
     Some ''CS(=O)(=O)Cl'' \<and>
   MolFromSmiles demo_rdkit (smiles \<lparr>smiles = ''CC'', rid = ''Amine_001'', name = ''Amine_001''\<rparr>) =
     Some ''CC'' \<and>
   best_effort_product demo_rdkit (Some ''CS(=O)(=O)Cl'') (Some ''CC'') =
     Inr (''CS(=O)(=O)Cl.CC'', ''FALLBACK_COMBINEMOLS'') \<and>
   (\<exists>smi st. enumerate_one_step demo_rdkit
      [\<lparr>smiles = ''CS(=O)(=O)Cl'', rid = ''S_001'', name = ''S_001''\<rparr>]
      [\<lparr>smiles = ''CC'', rid = ''Amine_001'', name = ''Amine_001''\<rparr>] =
      Inr [(0, \<lparr>smiles = ''CS(=O)(=O)Cl'', rid = ''S_001'', name = ''S_001''\<rparr>,
            \<lparr>smiles = ''CC'', rid = ''Amine_001'', name = ''Amine_001''\<rparr>, smi, st)])"
proof -
  let ?s = "\<lparr>smiles = ''CS(=O)(=O)Cl'', rid = ''S_001'', name = ''S_001''\<rparr>"
  let ?a = "\<lparr>smiles = ''CC'', rid = ''Amine_001'', name = ''Amine_001''\<rparr>"
  have t: "fallback_total demo_rdkit"
    by (simp add: fallback_total_def demo_rdkit_def)
  have ps: "MolFromSmiles demo_rdkit (smiles ?s) = Some ''CS(=O)(=O)Cl''"
    by (simp add: demo_rdkit_def)
  have pa: "MolFromSmiles demo_rdkit (smiles ?a) = Some ''CC''"
    by (simp add: demo_rdkit_def)
  have b: "best_effort_product demo_rdkit (Some ''CS(=O)(=O)Cl'') (Some ''CC'') =
             Inr (''CS(=O)(=O)Cl.CC'', ''FALLBACK_COMBINEMOLS'')"
    by (simp add: best_effort_product_def first_sanitized_product_smiles_def
        fallback_product_def demo_rdkit_def)
  have "\<exists>smi st. enumerate_one_step demo_rdkit [?s] [?a] = Inr [(0, ?s, ?a, smi, st)]"
    using best_effort_product_never_raises [OF t ps pa] by blast
  then show ?thesis
    using t ps pa b by blast
qed

section \<open>Claims about the static analyzer\<close>

text \<open>
  Claim C8: a transfer whose source well has no recorded load, or whose loaded variable has
  no reagent binding (in particular a variable all of whose \<^verbatim>\<open>define_liquid\<close> names match
  neither the amine nor the sulfonyl pattern), is silently excluded. The destination map, and
  with it the whole result of the analyzer, is the same as for the script without that
  transfer: it adds no entry to any of its destination wells and is the cause of no
  exception; a script whose only transfer is such a one yields the empty destination map.
\<close>

theorem unresolved_transfer_is_excluded:
  assumes "source_well_map_of (loads r) (src_well t) = None \<or>
           (\<exists>rv. source_well_map_of (loads r) (src_well t) = Some rv \<and>
                 (reagent_vars_of (liquids r) rv = None \<or>
                  (\<forall>p \<in> set (liquids r). fst p = rv \<longrightarrow>
                     (case snd p of None \<Rightarrow> True
                      | Some nm \<Rightarrow> RE_AMINE nm = None \<and> RE_SULF nm = None))))"
  shows "build_dest_map (source_well_map_of (loads r)) (reagent_vars_of (liquids r))
           (ts1 @ t # ts2) =
         build_dest_map (source_well_map_of (loads r)) (reagent_vars_of (liquids r))
           (ts1 @ ts2) \<and>
         parse_protocol (Some (r\<lparr>transfers := ts1 @ t # ts2\<rparr>)) =
         parse_protocol (Some (r\<lparr>transfers := ts1 @ ts2\<rparr>)) \<and>
         parse_protocol (Some (r\<lparr>transfers := [t]\<rparr>)) = Inr []"
proof -
  let ?swm = "source_well_map_of (loads r)"
  let ?rv = "reagent_vars_of (liquids r)"
  have u: "resolved_reagent ?swm ?rv t = None"
    using assms reagent_vars_of_unbound [of "liquids r"]
    by (auto simp: resolved_reagent_def split: option.splits)
  have a: "build_dest_map ?swm ?rv (ts1 @ t # ts2) = build_dest_map ?swm ?rv (ts1 @ ts2)"
    by (rule build_dest_map_drop_unresolved [OF u])
  have b: "build_dest_map ?swm ?rv [t] = []"
    using build_dest_map_drop_unresolved [OF u, of "[]" "[]"] by (simp add: build_dest_map_def)
  show ?thesis
    using a b by (simp add: parse_protocol_def dest_rows_of_Nil)
qed

theorem unresolved_transfer_is_excluded_witness:
  "source_well_map_of (loads demo_run) ''C1'' = Some ''solvent'' \<and>
   reagent_vars_of (liquids demo_run) ''solvent'' = None \<and>
   parse_protocol (Some (demo_run\<lparr>transfers := [\<lparr>src_well = ''C1'', dest_wells = [''Z9'']\<rparr>]\<rparr>)) =
     Inr [] \<and>
   parse_protocol (Some (demo_run\<lparr>transfers := [\<lparr>src_well = ''D9'', dest_wells = [''A1'']\<rparr>]\<rparr>)) =
     Inr []"
proof -
  let ?t = "\<lparr>src_well = ''C1'', dest_wells = [''Z9'']\<rparr>"
  let ?u = "\<lparr>src_well = ''D9'', dest_wells = [''A1'']\<rparr>"
  have h: "source_well_map_of (loads demo_run) (src_well ?t) = None \<or>
           (\<exists>rv. source_well_map_of (loads demo_run) (src_well ?t) = Some rv \<and>
                 (reagent_vars_of (liquids demo_run) rv = None \<or>
                  (\<forall>p \<in> set (liquids demo_run). fst p = rv \<longrightarrow>
                     (case snd p of None \<Rightarrow> True
                      | Some nm \<Rightarrow> RE_AMINE nm = None \<and> RE_SULF nm = None))))"
    by (simp add: demo_run_load_C1 demo_run_solvent_unbound)
  have g: "source_well_map_of (loads demo_run) (src_well ?u) = None \<or>
           (\<exists>rv. source_well_map_of (loads demo_run) (src_well ?u) = Some rv \<and>
                 (reagent_vars_of (liquids demo_run) rv = None \<or>
                  (\<forall>p \<in> set (liquids demo_run). fst p = rv \<longrightarrow>
                     (case snd p of None \<Rightarrow> True
                      | Some nm \<Rightarrow> RE_AMINE nm = None \<and> RE_SULF nm = None))))"
    by (simp add: demo_run_def source_well_map_of_def)
  have a: "parse_protocol (Some (demo_run\<lparr>transfers := [?t]\<rparr>)) = Inr []"
    using unresolved_transfer_is_excluded [OF h] by blast
  have b: "parse_protocol (Some (demo_run\<lparr>transfers := [?u]\<rparr>)) = Inr []"
    using unresolved_transfer_is_excluded [OF g] by blast
  show ?thesis
    using a b demo_run_load_C1 demo_run_solvent_unbound by blast
qed

text \<open>
  Claim C9, its last part, fails: a well that receives two transfers of the same class is not
  flagged. The analyzer returns an ordinary destination map in which the fields written by
  the first transfer (sulfonyl chloride 1 from source well A2) are gone and those of the
  second (sulfonyl chloride 2 from B2) stand.
\<close>

theorem same_class_transfer_overwrites_counterexample:
  "parse_protocol (Some (demo_run\<lparr>transfers :=
      [\<lparr>src_well = ''A2'', dest_wells = [''A1'']\<rparr>]\<rparr>)) =
    Inr [\<lparr>d_well = ''A1'', sulfonyl_num = Some 1, amine_num = None,
          sulfonyl_source_well = ''A2'', amine_source_well = ''''\<rparr>] \<and>
   parse_protocol (Some (demo_run\<lparr>transfers :=
      [\<lparr>src_well = ''A2'', dest_wells = [''A1'']\<rparr>,
       \<lparr>src_well = ''B2'', dest_wells = [''A1'']\<rparr>]\<rparr>)) =
    Inr [\<lparr>d_well = ''A1'', sulfonyl_num = Some 2, amine_num = None,
          sulfonyl_source_well = ''B2'', amine_source_well = ''''\<rparr>]"
  by (simp add: demo_run_eval)

text \<open>
  Claim C9, amended: the destination map holds exactly one entry per destination well (its
  keys are distinct and every entry carries its key as its well). A transfer that resolves to
  a reagent sets, in the entry of each of its destination wells, the number and source well
  of the reagent's class and leaves the fields of the other class as they were (blank if the
  well had no entry): a well visited by one sulfonyl-class and one amine-class transfer holds
  both field sets on one entry. A further transfer of the same class overwrites the fields
  of that class without any flag: the last such transfer wins. Wells that are not among the
  transfer's destinations keep their entries.
\<close>

theorem dest_map_one_entry_per_well_last_transfer_wins:
  assumes "resolved_reagent swm rv t = Some ri" and "w \<in> set (dest_wells t)"
  shows "distinct (map fst (build_dest_map swm rv (ts @ [t]))) \<and>
         (\<exists>e. map_of (build_dest_map swm rv (ts @ [t])) w = Some e \<and> d_well e = w \<and>
              (r_class ri = ''sulfonyl'' \<longrightarrow>
                 sulfonyl_num e = Some (r_num ri) \<and> sulfonyl_source_well e = src_well t \<and>
                 amine_num e = amine_num (entry_or_default (build_dest_map swm rv ts) w) \<and>
                 amine_source_well e =
                   amine_source_well (entry_or_default (build_dest_map swm rv ts) w)) \<and>
              (r_class ri = ''amine'' \<longrightarrow>
                 amine_num e = Some (r_num ri) \<and> amine_source_well e = src_well t \<and>
                 sulfonyl_num e = sulfonyl_num (entry_or_default (build_dest_map swm rv ts) w) \<and>
                 sulfonyl_source_well e =
                   sulfonyl_source_well (entry_or_default (build_dest_map swm rv ts) w))) \<and>
         (\<forall>w'. w' \<notin> set (dest_wells t) \<longrightarrow>
              map_of (build_dest_map swm rv (ts @ [t])) w' = map_of (build_dest_map swm rv ts) w')"
proof -
  let ?old = "entry_or_default (build_dest_map swm rv ts) w"
  have d: "d_well ?old = w"
    by (rule d_well_entry_or_default [OF d_well_build_dest_map])
  have m: "map_of (build_dest_map swm rv (ts @ [t])) w = Some (set_fields ri (src_well t) ?old)"
    by (rule map_of_build_snoc_resolved [OF assms])
  have f: "d_well (set_fields ri (src_well t) ?old) = w"
    by (simp add: d_well_set_fields d)
  have s: "r_class ri = ''sulfonyl'' \<longrightarrow>
             sulfonyl_num (set_fields ri (src_well t) ?old) = Some (r_num ri) \<and>
             sulfonyl_source_well (set_fields ri (src_well t) ?old) = src_well t \<and>
             amine_num (set_fields ri (src_well t) ?old) = amine_num ?old \<and>
             amine_source_well (set_fields ri (src_well t) ?old) = amine_source_well ?old"
    by (simp add: set_fields_def)
  have a: "r_class ri = ''amine'' \<longrightarrow>
             amine_num (set_fields ri (src_well t) ?old) = Some (r_num ri) \<and>
             amine_source_well (set_fields ri (src_well t) ?old) = src_well t \<and>
             sulfonyl_num (set_fields ri (src_well t) ?old) = sulfonyl_num ?old \<and>
             sulfonyl_source_well (set_fields ri (src_well t) ?old) = sulfonyl_source_well ?old"
    by (simp add: set_fields_def)
  have o: "\<forall>w'. w' \<notin> set (dest_wells t) \<longrightarrow>
              map_of (build_dest_map swm rv (ts @ [t])) w' = map_of (build_dest_map swm rv ts) w'"
    by (simp add: map_of_build_snoc_other)
  show ?thesis
    using m f s a o distinct_build_dest_map [of swm rv "ts @ [t]"] by blast
qed

theorem dest_map_one_entry_per_well_last_transfer_wins_witness:
  "resolved_reagent (source_well_map_of (loads demo_run)) (reagent_vars_of (liquids demo_run))
     \<lparr>src_well = ''B2'', dest_wells = [''A1'']\<rparr> =
     Some \<lparr>r_class = ''sulfonyl'', r_num = 2, r_name = ''SulfonylCl 2''\<rparr> \<and>
   ''A1'' \<in> set (dest_wells \<lparr>src_well = ''B2'', dest_wells = [''A1'']\<rparr>) \<and>
   (\<exists>e. map_of (build_dest_map (source_well_map_of (loads demo_run))
                  (reagent_vars_of (liquids demo_run))
                  ([\<lparr>src_well = ''A2'', dest_wells = [''A1'']\<rparr>] @
                   [\<lparr>src_well = ''B2'', dest_wells = [''A1'']\<rparr>])) ''A1'' = Some e \<and>
        sulfonyl_num e = Some 2 \<and> sulfonyl_source_well e = ''B2'')"
proof -
  let ?swm = "source_well_map_of (loads demo_run)"
  let ?rv = "reagent_vars_of (liquids demo_run)"
  let ?t = "\<lparr>src_well = ''B2'', dest_wells = [''A1'']\<rparr>"
  let ?ri = "\<lparr>r_class = ''sulfonyl'', r_num = 2, r_name = ''SulfonylCl 2''\<rparr>"
  have h: "resolved_reagent ?swm ?rv ?t = Some ?ri"
    by (simp add: resolved_reagent_def demo_run_load_B2 demo_run_sulfonyl_2)
  have w: "''A1'' \<in> set (dest_wells ?t)"
    by simp
  from dest_map_one_entry_per_well_last_transfer_wins
    [OF h w, of "[\<lparr>src_well = ''A2'', dest_wells = [''A1'']\<rparr>]"]
  obtain e where
    "map_of (build_dest_map ?swm ?rv ([\<lparr>src_well = ''A2'', dest_wells = [''A1'']\<rparr>] @ [?t]))
       ''A1'' = Some e"
    and "r_class ?ri = ''sulfonyl'' \<longrightarrow>
           sulfonyl_num e = Some (r_num ?ri) \<and> sulfonyl_source_well e = src_well ?t"
    by blast
  then have "\<exists>e. map_of (build_dest_map ?swm ?rv
                   ([\<lparr>src_well = ''A2'', dest_wells = [''A1'']\<rparr>] @ [?t])) ''A1'' = Some e \<and>
               sulfonyl_num e = Some 2 \<and> sulfonyl_source_well e = ''B2''"
    by (intro exI [of _ e]) simp
  then show ?thesis
    using h w by blast
qed



section \<open>Claims about the merge\<close>

text \<open>
  Claim C5 fails for the identifiers the enumerator generates itself. Without an identifier
  column the first reagent of a list gets \<^verbatim>\<open>S_000000\<close> (or \<^verbatim>\<open>A_000000\<close>): the prefix, then
  the row index from 0 in six digits. The merger renders number 1 as \<^verbatim>\<open>S_001\<close> and
  \<^verbatim>\<open>Amine_ID_001\<close>, and number 0 as \<^verbatim>\<open>S_000\<close>: no row joins.
\<close>

theorem auto_generated_ids_do_not_join_counterexample:
  "reagent_rid None ''S_'' 0 = ''S_000000'' \<and> reagent_rid None ''A_'' 0 = ''A_000000'' \<and>
   reagent_rid None ''S_'' 1 = ''S_000001'' \<and>
   s_id 0 = ''S_000'' \<and> s_id 1 = ''S_001'' \<and> amine_id 1 = ''Amine_ID_001'' \<and>
   s_id 1 \<noteq> reagent_rid None ''S_'' 0 \<and> s_id 1 \<noteq> reagent_rid None ''S_'' 1 \<and>
   amine_id 1 \<noteq> reagent_rid None ''A_'' 0"
  by (simp add: reagent_rid_def s_id_def amine_id_def format_0d_def zfill_def str_nat.simps
      digit_char_def replicate_small)

text \<open>
  Claim C5, amended: the merger renders a reagent number \<open>n \<ge> 0\<close> as \<^verbatim>\<open>S_\<close> or
  \<^verbatim>\<open>Amine_ID_\<close> followed by \<open>n\<close> in decimal, zero-padded to three digits (exactly three
  digits below 1000), and distinct numbers give distinct identifiers. Such an identifier
  equals the identifier of an enumerator reagent exactly when the reagent file supplies, in
  its identifier column, that very text (apart from surrounding whitespace). The identifiers
  the enumerator generates when the file supplies none never equal it for an amine, and for
  a sulfonyl chloride not for any number below 100000.
\<close>

theorem merger_ids_match_only_supplied_ids:
  assumes "0 \<le> n"
  shows "(reagent_rid (Some v) sp i = s_id n) = (strip v = s_id n) \<and>
         (reagent_rid (Some v) ap i = amine_id n) = (strip v = amine_id n) \<and>
         reagent_rid None ''A_'' i \<noteq> amine_id n \<and>
         (n < 100000 \<longrightarrow> reagent_rid None ''S_'' i \<noteq> s_id n) \<and>
         (n < 1000 \<longrightarrow> length (s_id n) = 5 \<and> length (amine_id n) = 12) \<and>
         (\<forall>m. 0 \<le> m \<and> (s_id m = s_id n \<or> amine_id m = amine_id n) \<longrightarrow> m = n)"
proof (intro conjI impI allI)
  show "(reagent_rid (Some v) sp i = s_id n) = (strip v = s_id n)"
    by (simp add: reagent_rid_def)
  show "(reagent_rid (Some v) ap i = amine_id n) = (strip v = amine_id n)"
    by (simp add: reagent_rid_def)
  show "reagent_rid None ''A_'' i \<noteq> amine_id n"
    by (simp add: reagent_rid_def amine_id_def)
next
  assume "n < 100000"
  then have "length (s_id n) \<le> 7"
    using length_format_0d_3_small [OF assms] by (simp add: s_id_def)
  moreover have "8 \<le> length (reagent_rid None ''S_'' i)"
    using length_format_0d_6 [of i] by (simp add: reagent_rid_def)
  ultimately show "reagent_rid None ''S_'' i \<noteq> s_id n"
    by auto
next
  assume "n < 1000"
  then show "length (s_id n) = 5" "length (amine_id n) = 12"
    using length_format_0d_3_three [OF assms] by (simp_all add: s_id_def amine_id_def)
next
  fix m
  assume "0 \<le> m \<and> (s_id m = s_id n \<or> amine_id m = amine_id n)"
  then have "0 \<le> m" and "format_0d 3 m = format_0d 3 n"
    by (auto simp: s_id_def amine_id_def)
  then show "m = n"
    using format_0d_inj [of m n 3] assms by simp
qed

theorem merger_ids_match_only_supplied_ids_witness:
  "(0::int) \<le> 1 \<and> reagent_rid (Some '' S_001 '') ''S_'' 0 = s_id 1 \<and>
   reagent_rid None ''A_'' 0 \<noteq> amine_id 1 \<and> reagent_rid None ''S_'' 0 \<noteq> s_id 1 \<and>
   length (s_id 1) = 5 \<and> length (amine_id 1) = 12"
proof -
  have h: "(0::int) \<le> 1" by simp
  have s: "strip '' S_001 '' = s_id 1"
    by (simp add: strip_def is_space_def s_id_def format_0d_def zfill_def str_nat.simps
        digit_char_def replicate_small)
  show ?thesis
    using merger_ids_match_only_supplied_ids [OF h, of "'' S_001 ''" "''S_''" 0] s by simp
qed

text \<open>
  Claim C6, its first part, fails: \<^verbatim>\<open>main\<close> has no \<^verbatim>\<open>try\<close>, and the merge raises
  \<^item> on a destination row with a blank number, which is what the analyzer writes for a well
    that only one class of transfer reaches (here well A1 with sulfonyl chloride 1 and no
    amine): \<^verbatim>\<open>astype(int)\<close> does not convert the blank cell;
  \<^item> on a product table whose key columns hold only numbers (here the identifier 1 for both
    reagents), although every destination row carries both numbers: \<^verbatim>\<open>merge\<close> does not join
    the text keys \<^verbatim>\<open>S_001\<close>, \<^verbatim>\<open>Amine_ID_001\<close> with a column of numbers.
\<close>

theorem merge_raises_on_blank_number_counterexample:
  "merge_main
     [\<lparr>row_Well = ''A1'', row_sulfonyl_num = Some 1, row_amine_num = None,
       row_sulfonyl_source_well = ''A2'', row_amine_source_well = ''''\<rparr>]
     \<lparr>S_ID_dtype = ObjectDtype, Amine_ID_dtype = ObjectDtype,
      prod_rows =
        [\<lparr>ProductID = 0, S_ID = Some ''S_001'', Amine_ID = Some ''Amine_ID_001'',
          SMILES = Some ''CC'', Status = ''OK_REACTION''\<rparr>]\<rparr> = Inl ValueError \<and>
   merge_main
     [\<lparr>row_Well = ''A1'', row_sulfonyl_num = Some 1, row_amine_num = Some 1,
       row_sulfonyl_source_well = ''A2'', row_amine_source_well = ''A1''\<rparr>]
     \<lparr>S_ID_dtype = NumericDtype, Amine_ID_dtype = NumericDtype,
      prod_rows =
        [\<lparr>ProductID = 0, S_ID = Some ''1'', Amine_ID = Some ''1'',
          SMILES = Some ''CC'', Status = ''OK_REACTION''\<rparr>]\<rparr> = Inl ValueError"
  by (simp add: merge_main_def merge_left_def)

text \<open>
  Claim C6, amended: when every destination row carries both numbers (64-bit integers) and
  the two key columns of the product table are read as text, the merge does not raise, and
  its exit status is 0 when the number of missing rows is zero and 1 when it is positive.
  The missing rows are the merged rows without a SMILES; when every product row has a SMILES
  these are exactly the unmatched rows, so the status is 0 exactly when every destination
  row has a product row with its key pair.
\<close>

theorem merge_exit_status_reports_missing:
  assumes "\<forall>d \<in> set df_dest. row_sulfonyl_num d \<noteq> None \<and> row_amine_num d \<noteq> None"
    and "S_ID_dtype df_prod = ObjectDtype" and "Amine_ID_dtype df_prod = ObjectDtype"
  shows "\<exists>res. merge_main df_dest df_prod = Inr res \<and>
           missing_rows res = filter (\<lambda>r. m_SMILES r = None) (out_rows res) \<and>
           exit_code res = (if length (missing_rows res) = 0 then 0 else 1) \<and>
           ((\<forall>p \<in> set (prod_rows df_prod). SMILES p \<noteq> None) \<longrightarrow>
              (exit_code res = 0) =
                (\<forall>d \<in> set df_dest. \<exists>p \<in> set (prod_rows df_prod).
                   S_ID p = Some (s_id (sint (the (row_sulfonyl_num d)))) \<and>
                   Amine_ID p = Some (amine_id (sint (the (row_amine_num d))))))"
proof -
  let ?dfm = "concat (map (join_row (prod_rows df_prod)) (numbered df_dest))"
  let ?missing = "filter (\<lambda>r. m_SMILES r = None) ?dfm"
  have m: "(\<forall>p \<in> set (prod_rows df_prod). SMILES p \<noteq> None) \<longrightarrow>
             (?missing = []) =
               (\<forall>d \<in> set df_dest. \<exists>p \<in> set (prod_rows df_prod).
                  S_ID p = Some (s_id (sint (the (row_sulfonyl_num d)))) \<and>
                  Amine_ID p = Some (amine_id (sint (the (row_amine_num d)))))"
  proof
    assume "\<forall>p \<in> set (prod_rows df_prod). SMILES p \<noteq> None"
    from missing_empty_iff [OF this, of "numbered df_dest"]
    show "(?missing = []) =
               (\<forall>d \<in> set df_dest. \<exists>p \<in> set (prod_rows df_prod).
                  S_ID p = Some (s_id (sint (the (row_sulfonyl_num d)))) \<and>
                  Amine_ID p = Some (amine_id (sint (the (row_amine_num d)))))"
      by (simp add: numbered_def)
  qed
  show ?thesis
    unfolding merge_main_present [OF assms] using m by simp
qed

theorem merge_exit_status_reports_missing_witness:
  "(\<exists>res. merge_main
      [\<lparr>row_Well = ''A1'', row_sulfonyl_num = Some 1, row_amine_num = Some 1,
        row_sulfonyl_source_well = ''A2'', row_amine_source_well = ''A1''\<rparr>]
      \<lparr>S_ID_dtype = ObjectDtype, Amine_ID_dtype = ObjectDtype,
       prod_rows =
         [\<lparr>ProductID = 0, S_ID = Some ''S_001'', Amine_ID = Some ''Amine_ID_001'',
           SMILES = Some ''CC'', Status = ''OK_REACTION''\<rparr>]\<rparr> = Inr res \<and> exit_code res = 0) \<and>
   (\<exists>res. merge_main
      [\<lparr>row_Well = ''A1'', row_sulfonyl_num = Some 1, row_amine_num = Some 1,
        row_sulfonyl_source_well = ''A2'', row_amine_source_well = ''A1''\<rparr>]
      \<lparr>S_ID_dtype = ObjectDtype, Amine_ID_dtype = ObjectDtype, prod_rows = []\<rparr> = Inr res \<and>
      exit_code res = 1)"
proof -
  let ?D = "[\<lparr>row_Well = ''A1'', row_sulfonyl_num = Some 1, row_amine_num = Some 1,
              row_sulfonyl_source_well = ''A2'', row_amine_source_well = ''A1''\<rparr>]"
  let ?P = "\<lparr>S_ID_dtype = ObjectDtype, Amine_ID_dtype = ObjectDtype,
             prod_rows =
               [\<lparr>ProductID = 0, S_ID = Some ''S_001'', Amine_ID = Some ''Amine_ID_001'',
                 SMILES = Some ''CC'', Status = ''OK_REACTION''\<rparr>]\<rparr>"
  let ?E = "\<lparr>S_ID_dtype = ObjectDtype, Amine_ID_dtype = ObjectDtype,
             prod_rows = ([] :: prod_row list)\<rparr>"
  have h: "\<forall>d \<in> set ?D. row_sulfonyl_num d \<noteq> None \<and> row_amine_num d \<noteq> None"
    by simp
  have ids: "s_id 1 = ''S_001''" "amine_id 1 = ''Amine_ID_001''"
    by (simp_all add: s_id_def amine_id_def format_0d_def zfill_def str_nat.simps digit_char_def
        replicate_small)
  from merge_exit_status_reports_missing [OF h, of ?P]
  obtain res where res: "merge_main ?D ?P = Inr res"
    "(\<forall>p \<in> set (prod_rows ?P). SMILES p \<noteq> None) \<longrightarrow>
       (exit_code res = 0) =
         (\<forall>d \<in> set ?D. \<exists>p \<in> set (prod_rows ?P).
            S_ID p = Some (s_id (sint (the (row_sulfonyl_num d)))) \<and>
            Amine_ID p = Some (amine_id (sint (the (row_amine_num d)))))"
    by auto
  have a: "\<exists>res. merge_main ?D ?P = Inr res \<and> exit_code res = 0"
    using res by (intro exI [of _ res]) (simp add: ids)
  from merge_exit_status_reports_missing [OF h, of ?E]
  obtain res' where res': "merge_main ?D ?E = Inr res'"
    "(\<forall>p \<in> set (prod_rows ?E). SMILES p \<noteq> None) \<longrightarrow>
       (exit_code res' = 0) =
         (\<forall>d \<in> set ?D. \<exists>p \<in> set (prod_rows ?E).
            S_ID p = Some (s_id (sint (the (row_sulfonyl_num d)))) \<and>
            Amine_ID p = Some (amine_id (sint (the (row_amine_num d)))))"
    "exit_code res' = (if length (missing_rows res') = 0 then 0 else 1)"
    by auto
  have "exit_code res' \<noteq> 0"
    using res'(2) by simp
  then have "exit_code res' = 1"
    using res'(3) by (simp split: if_splits)
  then have b: "\<exists>res. merge_main ?D ?E = Inr res \<and> exit_code res = 1"
    using res'(1) by blast
  show ?thesis
    using a b by blast
qed

text \<open>
  Claim C7 at a product table in which two rows share a key pair (nothing in the enumerator
  or the merger makes reagent identifiers or key pairs unique): the left join repeats the
  destination row for each of them. The one well A1 of the destination map is written twice,
  the QC report counts two wells, and the exit status is 0. The comment above the call of
  \<^verbatim>\<open>merge\<close> in \<^verbatim>\<open>main\<close> reads \<^verbatim>\<open># Merge: one row per well\<close>.
\<close>

theorem merge_repeats_well_on_duplicate_product_keys:
  "merge_main
     [\<lparr>row_Well = ''A1'', row_sulfonyl_num = Some 1, row_amine_num = Some 1,
       row_sulfonyl_source_well = ''A2'', row_amine_source_well = ''A1''\<rparr>]
     \<lparr>S_ID_dtype = ObjectDtype, Amine_ID_dtype = ObjectDtype,
      prod_rows =
        [\<lparr>ProductID = 0, S_ID = Some ''S_001'', Amine_ID = Some ''Amine_ID_001'',
          SMILES = Some ''CC'', Status = ''OK_REACTION''\<rparr>,
         \<lparr>ProductID = 5, S_ID = Some ''S_001'', Amine_ID = Some ''Amine_ID_001'',
          SMILES = Some ''CCC'', Status = ''OK_REACTION''\<rparr>]\<rparr> =
   Inr \<lparr>out_rows =
          [\<lparr>m_Well = ''A1'', m_sulfonyl_num = 1, m_amine_num = 1,
            m_sulfonyl_source_well = ''A2'', m_amine_source_well = ''A1'',
            m_S_ID = ''S_001'', m_Amine_ID = ''Amine_ID_001'',
            m_ProductID = Some 0, m_SMILES = Some ''CC'', m_Status = Some ''OK_REACTION''\<rparr>,
           \<lparr>m_Well = ''A1'', m_sulfonyl_num = 1, m_amine_num = 1,
            m_sulfonyl_source_well = ''A2'', m_amine_source_well = ''A1'',
            m_S_ID = ''S_001'', m_Amine_ID = ''Amine_ID_001'',
            m_ProductID = Some 5, m_SMILES = Some ''CCC'', m_Status = Some ''OK_REACTION''\<rparr>],
        missing_rows = [],
        qc_lines = [''Total wells: 2'', ''Missing SMILES: 0''],
        exit_code = 0\<rparr>"
  by (simp add: merge_main_def merge_left_def join_row_def matched_row_def unmatched_row_def
      qc_report_def s_id_def amine_id_def format_0d_def zfill_def str_nat.simps digit_char_def
      replicate_small)

section \<open>Further properties\<close>

text \<open>
  The enumeration is total under the oracle's contract: when combining two molecules
  succeeds and the stored SMILES of every reagent parses, the generator runs to its end and
  yields one product per pair, numbered \<open>0, 1, ..., N * M - 1\<close>.
\<close>

theorem enumerate_one_step_total:
  assumes "fallback_total rd"
    and "\<forall>r \<in> set sulfonyls \<union> set amines. MolFromSmiles rd (smiles r) \<noteq> None"
  shows "\<exists>ps. enumerate_one_step rd sulfonyls amines = Inr ps \<and>
              length ps = length sulfonyls * length amines \<and>
              map fst ps = [0..<length sulfonyls * length amines]"
proof -
  have ok: "\<And>s a. s \<in> set sulfonyls \<Longrightarrow> a \<in> set amines \<Longrightarrow>
             \<exists>r. best_effort_product rd (MolFromSmiles rd (smiles s))
                   (MolFromSmiles rd (smiles a)) = Inr r"
  proof -
    fix s a assume "s \<in> set sulfonyls" "a \<in> set amines"
    then obtain x y where "MolFromSmiles rd (smiles s) = Some x" "MolFromSmiles rd (smiles a) = Some y"
      using assms(2) by fastforce
    then show "\<exists>r. best_effort_product rd (MolFromSmiles rd (smiles s))
                   (MolFromSmiles rd (smiles a)) = Inr r"
      using best_effort_product_Inr [OF assms(1)] by simp
  qed
  from enumerate_sulfonyls_ok [OF ok, where pid = 0]
  obtain ps where ps: "enumerate_sulfonyls rd sulfonyls amines 0 = Inr ps"
    "length ps = length sulfonyls * length amines"
    "\<forall>i < length sulfonyls. \<forall>j < length amines. \<exists>smi st.
                 best_effort_product rd (MolFromSmiles rd (smiles (sulfonyls ! i)))
                   (MolFromSmiles rd (smiles (amines ! j))) = Inr (smi, st) \<and>
                 ps ! (i * length amines + j) =
                   (0 + (i * length amines + j), sulfonyls ! i, amines ! j, smi, st)"
    by blast
  have "\<forall>i < length sulfonyls. \<forall>j < length amines.
          fst (ps ! (i * length amines + j)) = i * length amines + j"
    using ps(3) by fastforce
  then have "map fst ps = [0..<length sulfonyls * length amines]"
    using ps(2) by (intro map_fst_upt) simp_all
  then show ?thesis
    using ps by (intro exI [of _ ps]) (simp add: enumerate_one_step_def)
qed

theorem enumerate_one_step_total_witness:
  "fallback_total demo_rdkit \<and>
   (\<exists>ps. enumerate_one_step demo_rdkit
           [\<lparr>smiles = ''CS(=O)(=O)Cl'', rid = ''S_001'', name = ''S_001''\<rparr>]
           [\<lparr>smiles = ''N'', rid = ''Amine_001'', name = ''Amine_001''\<rparr>,
            \<lparr>smiles = ''CC'', rid = ''Amine_002'', name = ''Amine_002''\<rparr>] = Inr ps \<and>
         length ps = 2 \<and> map fst ps = [0, 1])"
proof -
  let ?ss = "[\<lparr>smiles = ''CS(=O)(=O)Cl'', rid = ''S_001'', name = ''S_001''\<rparr>]"
  let ?as = "[\<lparr>smiles = ''N'', rid = ''Amine_001'', name = ''Amine_001''\<rparr>,
              \<lparr>smiles = ''CC'', rid = ''Amine_002'', name = ''Amine_002''\<rparr>]"
  have t: "fallback_total demo_rdkit"
    by (simp add: fallback_total_def demo_rdkit_def)
  have p: "\<forall>r \<in> set ?ss \<union> set ?as. MolFromSmiles demo_rdkit (smiles r) \<noteq> None"
    by (simp add: demo_rdkit_def)
  have u: "[0..<2] = [0, 1::nat]"
    by (simp add: upt_rec)
  from enumerate_one_step_total [OF t p]
  obtain ps where "enumerate_one_step demo_rdkit ?ss ?as = Inr ps"
    and "length ps = length ?ss * length ?as"
    and "map fst ps = [0..<length ?ss * length ?as]"
    by blast
  then have "\<exists>ps. enumerate_one_step demo_rdkit ?ss ?as = Inr ps \<and>
                  length ps = 2 \<and> map fst ps = [0, 1]"
    using u by (intro exI [of _ ps]) simp
  then show ?thesis
    using t by blast
qed

text \<open>
  The wells of the destination map are exactly the destination wells of the transfers that
  resolve to a reagent, each once.
\<close>

theorem dest_map_wells_are_resolved_destinations:
  "fst ` set (build_dest_map swm rv ts) =
     (\<Union>t \<in> {t \<in> set ts. resolved_reagent swm rv t \<noteq> None}. set (dest_wells t)) \<and>
   distinct (map fst (build_dest_map swm rv ts))"
  by (simp add: keys_build_dest_map distinct_build_dest_map)

text \<open>
  The merge raises exactly when some destination row has a blank sulfonyl chloride or amine
  number, or when both frames have rows and a key column of the product table is read as
  numbers.
\<close>

theorem merge_raises_iff_blank_number_or_numeric_key:
  "(\<exists>e. merge_main df_dest df_prod = Inl e) =
     ((\<exists>d \<in> set df_dest. row_sulfonyl_num d = None \<or> row_amine_num d = None) \<or>
      (df_dest \<noteq> [] \<and> prod_rows df_prod \<noteq> [] \<and>
       (S_ID_dtype df_prod = NumericDtype \<or> Amine_ID_dtype df_prod = NumericDtype)))"
proof (cases "\<exists>d \<in> set df_dest. row_sulfonyl_num d = None \<or> row_amine_num d = None")
  case True
  then show ?thesis
    using merge_main_blank [of df_dest df_prod] by simp
next
  case False
  then have p: "\<forall>d \<in> set df_dest. row_sulfonyl_num d \<noteq> None \<and> row_amine_num d \<noteq> None"
    by simp
  have "(\<exists>e. merge_main df_dest df_prod = Inl e) =
          (\<exists>e. merge_left (numbered df_dest) df_prod = Inl e)"
    unfolding merge_main_numbered [OF p] by (simp split: sum.splits)
  also have "\<dots> = (numbered df_dest \<noteq> [] \<and> prod_rows df_prod \<noteq> [] \<and>
       (S_ID_dtype df_prod = NumericDtype \<or> Amine_ID_dtype df_prod = NumericDtype))"
    by (rule merge_left_Inl_iff)
  finally have "(\<exists>e. merge_main df_dest df_prod = Inl e) =
          (df_dest \<noteq> [] \<and> prod_rows df_prod \<noteq> [] \<and>
           (S_ID_dtype df_prod = NumericDtype \<or> Amine_ID_dtype df_prod = NumericDtype))"
    by (simp add: numbered_def)
  then show ?thesis
    using False by blast
qed

text \<open>
  Without a repeated key pair in the product table the merge is a left join driven by the
  destination map: when every destination row carries both numbers, the key columns of the product table are
  read as text and no two product rows share a key pair, the merged output has one row per
  destination row, in the same order and with the same well, numbers and source wells,
  whether or not a product matches. The row of a destination row without a matching product
  has empty product fields and is among the missing rows; the row of one with a match
  carries that product's identifier, SMILES and status.
\<close>

theorem merge_is_left_join_one_row_per_well:
  assumes "\<forall>d \<in> set df_dest. row_sulfonyl_num d \<noteq> None \<and> row_amine_num d \<noteq> None"
    and "S_ID_dtype df_prod = ObjectDtype" and "Amine_ID_dtype df_prod = ObjectDtype"
    and "distinct (map (\<lambda>p. (S_ID p, Amine_ID p)) (prod_rows df_prod))"
  shows "\<exists>res. merge_main df_dest df_prod = Inr res \<and>
           length (out_rows res) = length df_dest \<and>
           map m_Well (out_rows res) = map row_Well df_dest \<and>
           (\<forall>i < length df_dest.
              m_Well (out_rows res ! i) = row_Well (df_dest ! i) \<and>
              m_sulfonyl_num (out_rows res ! i) = the (row_sulfonyl_num (df_dest ! i)) \<and>
              m_amine_num (out_rows res ! i) = the (row_amine_num (df_dest ! i)) \<and>
              m_sulfonyl_source_well (out_rows res ! i) = row_sulfonyl_source_well (df_dest ! i) \<and>
              m_amine_source_well (out_rows res ! i) = row_amine_source_well (df_dest ! i) \<and>
              (case find (\<lambda>p. S_ID p = Some (s_id (sint (the (row_sulfonyl_num (df_dest ! i))))) \<and>
                               Amine_ID p = Some (amine_id (sint (the (row_amine_num (df_dest ! i))))))
                      (prod_rows df_prod) of
                 None \<Rightarrow> m_ProductID (out_rows res ! i) = None \<and>
                         m_SMILES (out_rows res ! i) = None \<and>
                         m_Status (out_rows res ! i) = None \<and>
                         out_rows res ! i \<in> set (missing_rows res)
               | Some p \<Rightarrow> m_ProductID (out_rows res ! i) = Some (ProductID p) \<and>
                           m_SMILES (out_rows res ! i) = SMILES p \<and>
                           m_Status (out_rows res ! i) = Some (Status p)))"
proof -
  let ?rows = "prod_rows df_prod"
  let ?g = "\<lambda>d. join_one ?rows d (the (row_sulfonyl_num d)) (the (row_amine_num d))"
  let ?dfm = "concat (map (join_row ?rows) (numbered df_dest))"
  have "?dfm = map (\<lambda>(d, n, m). join_one ?rows d n m) (numbered df_dest)"
    by (rule concat_join_row_distinct [OF assms(4)])
  also have "\<dots> = map ?g df_dest"
    by (simp add: numbered_def comp_def)
  finally have dfm: "?dfm = map ?g df_dest" .
  have len: "length ?dfm = length df_dest"
    by (simp add: dfm)
  have wells: "map m_Well ?dfm = map row_Well df_dest"
    by (simp add: dfm join_one_fields)
  have rows: "\<forall>i < length df_dest.
              m_Well (?dfm ! i) = row_Well (df_dest ! i) \<and>
              m_sulfonyl_num (?dfm ! i) = the (row_sulfonyl_num (df_dest ! i)) \<and>
              m_amine_num (?dfm ! i) = the (row_amine_num (df_dest ! i)) \<and>
              m_sulfonyl_source_well (?dfm ! i) = row_sulfonyl_source_well (df_dest ! i) \<and>
              m_amine_source_well (?dfm ! i) = row_amine_source_well (df_dest ! i) \<and>
              (case find (\<lambda>p. S_ID p = Some (s_id (sint (the (row_sulfonyl_num (df_dest ! i))))) \<and>
                               Amine_ID p = Some (amine_id (sint (the (row_amine_num (df_dest ! i))))))
                      ?rows of
                 None \<Rightarrow> m_ProductID (?dfm ! i) = None \<and>
                         m_SMILES (?dfm ! i) = None \<and>
                         m_Status (?dfm ! i) = None \<and>
                         ?dfm ! i \<in> set (filter (\<lambda>r. m_SMILES r = None) ?dfm)
               | Some p \<Rightarrow> m_ProductID (?dfm ! i) = Some (ProductID p) \<and>
                           m_SMILES (?dfm ! i) = SMILES p \<and>
                           m_Status (?dfm ! i) = Some (Status p))"
  proof (intro allI impI)
    fix i assume i: "i < length df_dest"
    let ?d = "df_dest ! i"
    have n: "?dfm ! i = ?g ?d"
      using i by (simp add: dfm)
    have mem: "?dfm ! i \<in> set ?dfm"
      using i len by (metis nth_mem)
    show "m_Well (?dfm ! i) = row_Well (df_dest ! i) \<and>
              m_sulfonyl_num (?dfm ! i) = the (row_sulfonyl_num (df_dest ! i)) \<and>
              m_amine_num (?dfm ! i) = the (row_amine_num (df_dest ! i)) \<and>
              m_sulfonyl_source_well (?dfm ! i) = row_sulfonyl_source_well (df_dest ! i) \<and>
              m_amine_source_well (?dfm ! i) = row_amine_source_well (df_dest ! i) \<and>
              (case find (\<lambda>p. S_ID p = Some (s_id (sint (the (row_sulfonyl_num (df_dest ! i))))) \<and>
                               Amine_ID p = Some (amine_id (sint (the (row_amine_num (df_dest ! i))))))
                      ?rows of
                 None \<Rightarrow> m_ProductID (?dfm ! i) = None \<and>
                         m_SMILES (?dfm ! i) = None \<and>
                         m_Status (?dfm ! i) = None \<and>
                         ?dfm ! i \<in> set (filter (\<lambda>r. m_SMILES r = None) ?dfm)
               | Some p \<Rightarrow> m_ProductID (?dfm ! i) = Some (ProductID p) \<and>
                           m_SMILES (?dfm ! i) = SMILES p \<and>
                           m_Status (?dfm ! i) = Some (Status p))"
      using join_one_fields [where n = "the (row_sulfonyl_num ?d)" and m = "the (row_amine_num ?d)"
          and rows = ?rows and d = ?d]
        join_one_product [where n = "the (row_sulfonyl_num ?d)" and m = "the (row_amine_num ?d)"
          and rows = ?rows and d = ?d] mem
      unfolding n [symmetric]
      by (auto split: option.splits)
  qed
  define res where "res =
     \<lparr>out_rows = ?dfm, missing_rows = filter (\<lambda>r. m_SMILES r = None) ?dfm,
      qc_lines = qc_report ?dfm (filter (\<lambda>r. m_SMILES r = None) ?dfm),
      exit_code = (if filter (\<lambda>r. m_SMILES r = None) ?dfm = [] then 0 else 1)\<rparr>"
  have r: "merge_main df_dest df_prod = Inr res"
    unfolding res_def by (rule merge_main_present [OF assms(1,2,3)])
  have o: "out_rows res = ?dfm" and mi: "missing_rows res = filter (\<lambda>r. m_SMILES r = None) ?dfm"
    by (simp_all add: res_def)
  show ?thesis
    apply (rule exI [of _ res])
    unfolding o mi
    using r len wells rows by blast
qed

theorem merge_is_left_join_one_row_per_well_witness:
  "\<exists>res. merge_main
      [\<lparr>row_Well = ''A1'', row_sulfonyl_num = Some 1, row_amine_num = Some 1,
        row_sulfonyl_source_well = ''A2'', row_amine_source_well = ''A1''\<rparr>,
       \<lparr>row_Well = ''B1'', row_sulfonyl_num = Some 1, row_amine_num = Some 2,
        row_sulfonyl_source_well = ''A2'', row_amine_source_well = ''B1''\<rparr>]
      \<lparr>S_ID_dtype = ObjectDtype, Amine_ID_dtype = ObjectDtype,
       prod_rows =
         [\<lparr>ProductID = 0, S_ID = Some ''S_001'', Amine_ID = Some ''Amine_ID_001'',
           SMILES = Some ''CC'', Status = ''OK_REACTION''\<rparr>]\<rparr> = Inr res \<and>
     length (out_rows res) = 2 \<and> map m_Well (out_rows res) = [''A1'', ''B1'']"
proof -
  let ?D = "[\<lparr>row_Well = ''A1'', row_sulfonyl_num = Some 1, row_amine_num = Some 1,
              row_sulfonyl_source_well = ''A2'', row_amine_source_well = ''A1''\<rparr>,
             \<lparr>row_Well = ''B1'', row_sulfonyl_num = Some 1, row_amine_num = Some 2,
              row_sulfonyl_source_well = ''A2'', row_amine_source_well = ''B1''\<rparr>]"
  let ?P = "\<lparr>S_ID_dtype = ObjectDtype, Amine_ID_dtype = ObjectDtype,
             prod_rows =
               [\<lparr>ProductID = 0, S_ID = Some ''S_001'', Amine_ID = Some ''Amine_ID_001'',
                 SMILES = Some ''CC'', Status = ''OK_REACTION''\<rparr>]\<rparr>"
  have h: "\<forall>d \<in> set ?D. row_sulfonyl_num d \<noteq> None \<and> row_amine_num d \<noteq> None"
    by simp
  have k: "distinct (map (\<lambda>p. (S_ID p, Amine_ID p)) (prod_rows ?P))"
    by simp
  from merge_is_left_join_one_row_per_well [OF h _ _ k]
  obtain res where "merge_main ?D ?P = Inr res" and "length (out_rows res) = length ?D"
    and "map m_Well (out_rows res) = map row_Well ?D"
    by auto
  then show ?thesis
    by (intro exI [of _ res]) simp
qed

text \<open>
  When the sort succeeds, the emitted wells are the wells of the map, as many, in ascending
  order of (column, row): column-major, whatever the order of the transfers in the script.
\<close>

theorem sorted_wells_column_major:
  assumes "sorted_wells ws = Inr vs"
  shows "set vs = set ws \<and> length vs = length ws \<and>
         sorted (map (\<lambda>w. projr (well_sort_key w)) vs)"
proof -
  from assms obtain ks where ks: "sort_keys ws = Inr ks" and vs: "vs = map snd (sort_key fst ks)"
    by (auto simp: sorted_wells_def split: sum.splits)
  have m: "map snd ks = ws"
    by (rule sort_keys_Inr [OF ks])
  have k: "\<forall>p \<in> set ks. well_sort_key (snd p) = Inr (fst p)"
    by (rule sort_keys_keys [OF ks])
  have "set vs = set (map snd ks)"
    by (simp add: vs)
  then have s: "set vs = set ws"
    by (simp only: m)
  have "length vs = length (map snd ks)"
    by (simp add: vs)
  then have l: "length vs = length ws"
    by (simp only: m)
  have "map (\<lambda>w. projr (well_sort_key w)) vs = map fst (sort_key fst ks)"
    using k by (simp add: vs)
  then have "sorted (map (\<lambda>w. projr (well_sort_key w)) vs)"
    by (simp add: sorted_sort_key)
  then show ?thesis
    using s l by simp
qed

theorem sorted_wells_column_major_witness:
  "sorted_wells [''B1'', ''A2'', ''A1''] = Inr [''A1'', ''B1'', ''A2''] \<and>
   set [''A1'', ''B1'', ''A2''] = set [''B1'', ''A2'', ''A1''] \<and>
   sorted (map (\<lambda>w. projr (well_sort_key w)) [''A1'', ''B1'', ''A2''])"
proof -
  have h: "sorted_wells [''B1'', ''A2'', ''A1''] = Inr [''A1'', ''B1'', ''A2'']"
    by (simp add: sorted_wells_def well_sort_key_def py_int_def int_strip_def is_int_space_def
        max_str_digits_def is_digit_def upper_char_def nat_of_digits_def digit_val_def)
  show ?thesis
    using sorted_wells_column_major [OF h] h by simp
qed

end
